theory Spec2Isabelle
  imports Main "HOL-Library.Word" "HOL-Library.AList"
begin

unbundle bit_operations_syntax

section \<open>Values of the Python program\<close>

text \<open>
  A Python \<open>str\<close> is a sequence of Unicode code points, a \<open>bytes\<close> object a sequence
  of octets. Exceptions are values: every function that can raise returns
  \<open>error + 'a\<close>, with \<open>Inl\<close> for the exception that leaves it.
\<close>

type_synonym str = "nat list"
type_synonym byte = "8 word"
type_synonym bytes = "byte list"

datatype error =
    UnicodeEncodeError
  | UnicodeDecodeError
  | binascii_Error
  | ZeroDivisionError
  | ValueError
  | TypeError
  | KeyError
  | IndexError
  | AttributeError
  | EOFError
  | OSError

text \<open>An ASCII literal of the source, as code points.\<close>

definition lit :: "string \<Rightarrow> str" where
  "lit s = map of_char s"

section \<open>The codecs of the standard library\<close>

subsection \<open>\<open>str.encode("utf-8")\<close> and \<open>bytes.decode("utf-8")\<close>\<close>

text \<open>
  The strict UTF-8 codec. Encoding raises on a lone surrogate (U+D800 to U+DFFF), which
  a \<open>str\<close> can hold; no \<open>str\<close> holds a code point above U+10FFFF, and the model
  refuses one in the same way. Decoding raises on every ill-formed sequence: a stray
  continuation octet, a truncated or overlong form, an encoded surrogate, a value above
  U+10FFFF.
\<close>

definition utf8_char :: "nat \<Rightarrow> error + nat list" where
  "utf8_char c =
     (if c < 0x80 then Inr [c]
      else if c < 0x800 then Inr [0xC0 + c div 64, 0x80 + c mod 64]
      else if 0xD800 \<le> c \<and> c \<le> 0xDFFF then Inl UnicodeEncodeError
      else if c < 0x10000 then
        Inr [0xE0 + c div 4096, 0x80 + c div 64 mod 64, 0x80 + c mod 64]
      else if c < 0x110000 then
        Inr [0xF0 + c div 262144, 0x80 + c div 4096 mod 64, 0x80 + c div 64 mod 64,
             0x80 + c mod 64]
      else Inl UnicodeEncodeError)"

fun encode_utf8 :: "str \<Rightarrow> error + bytes" where
  "encode_utf8 [] = Inr []"
| "encode_utf8 (c # cs) =
     (case utf8_char c of
        Inl e \<Rightarrow> Inl e
      | Inr bs \<Rightarrow>
          (case encode_utf8 cs of
             Inl e \<Rightarrow> Inl e
           | Inr rest \<Rightarrow> Inr (map of_nat bs @ rest)))"

definition continuation :: "nat \<Rightarrow> bool" where
  "continuation b = (0x80 \<le> b \<and> b < 0xC0)"

definition emit :: "nat \<Rightarrow> error + str \<Rightarrow> error + str" where
  "emit c r = (case r of Inl e \<Rightarrow> Inl e | Inr cs \<Rightarrow> Inr (c # cs))"

fun decode_octets :: "nat list \<Rightarrow> error + str" where
  "decode_octets [] = Inr []"
| "decode_octets (b0 # bs) =
     (if b0 < 0x80 then emit b0 (decode_octets bs)
      else if 0xC2 \<le> b0 \<and> b0 < 0xE0 then
        (case bs of
           b1 # r \<Rightarrow>
             if continuation b1
             then emit ((b0 - 0xC0) * 64 + (b1 - 0x80)) (decode_octets r)
             else Inl UnicodeDecodeError
         | _ \<Rightarrow> Inl UnicodeDecodeError)
      else if 0xE0 \<le> b0 \<and> b0 < 0xF0 then
        (case bs of
           b1 # b2 # r \<Rightarrow>
             if continuation b1 \<and> continuation b2
                \<and> 0x800 \<le> (b0 - 0xE0) * 4096 + (b1 - 0x80) * 64 + (b2 - 0x80)
                \<and> \<not> (0xD800 \<le> (b0 - 0xE0) * 4096 + (b1 - 0x80) * 64 + (b2 - 0x80)
                      \<and> (b0 - 0xE0) * 4096 + (b1 - 0x80) * 64 + (b2 - 0x80) \<le> 0xDFFF)
             then emit ((b0 - 0xE0) * 4096 + (b1 - 0x80) * 64 + (b2 - 0x80))
                    (decode_octets r)
             else Inl UnicodeDecodeError
         | _ \<Rightarrow> Inl UnicodeDecodeError)
      else if 0xF0 \<le> b0 \<and> b0 < 0xF5 then
        (case bs of
           b1 # b2 # b3 # r \<Rightarrow>
             if continuation b1 \<and> continuation b2 \<and> continuation b3
                \<and> 0x10000 \<le> (b0 - 0xF0) * 262144 + (b1 - 0x80) * 4096
                               + (b2 - 0x80) * 64 + (b3 - 0x80)
                \<and> (b0 - 0xF0) * 262144 + (b1 - 0x80) * 4096
                      + (b2 - 0x80) * 64 + (b3 - 0x80) < 0x110000
             then emit ((b0 - 0xF0) * 262144 + (b1 - 0x80) * 4096
                          + (b2 - 0x80) * 64 + (b3 - 0x80))
                    (decode_octets r)
             else Inl UnicodeDecodeError
         | _ \<Rightarrow> Inl UnicodeDecodeError)
      else Inl UnicodeDecodeError)"

definition decode_utf8 :: "bytes \<Rightarrow> error + str" where
  "decode_utf8 bs = decode_octets (map unat bs)"

subsection \<open>\<open>hashlib.sha256\<close>\<close>

type_synonym w32 = "32 word"

definition K256 :: "w32 list" where
  "K256 =
    [0x428A2F98, 0x71374491, 0xB5C0FBCF, 0xE9B5DBA5, 0x3956C25B, 0x59F111F1,
     0x923F82A4, 0xAB1C5ED5, 0xD807AA98, 0x12835B01, 0x243185BE, 0x550C7DC3,
     0x72BE5D74, 0x80DEB1FE, 0x9BDC06A7, 0xC19BF174, 0xE49B69C1, 0xEFBE4786,
     0x0FC19DC6, 0x240CA1CC, 0x2DE92C6F, 0x4A7484AA, 0x5CB0A9DC, 0x76F988DA,
     0x983E5152, 0xA831C66D, 0xB00327C8, 0xBF597FC7, 0xC6E00BF3, 0xD5A79147,
     0x06CA6351, 0x14292967, 0x27B70A85, 0x2E1B2138, 0x4D2C6DFC, 0x53380D13,
     0x650A7354, 0x766A0ABB, 0x81C2C92E, 0x92722C85, 0xA2BFE8A1, 0xA81A664B,
     0xC24B8B70, 0xC76C51A3, 0xD192E819, 0xD6990624, 0xF40E3585, 0x106AA070,
     0x19A4C116, 0x1E376C08, 0x2748774C, 0x34B0BCB5, 0x391C0CB3, 0x4ED8AA4A,
     0x5B9CCA4F, 0x682E6FF3, 0x748F82EE, 0x78A5636F, 0x84C87814, 0x8CC70208,
     0x90BEFFFA, 0xA4506CEB, 0xBEF9A3F7, 0xC67178F2]"

type_synonym sha_state = "w32 \<times> w32 \<times> w32 \<times> w32 \<times> w32 \<times> w32 \<times> w32 \<times> w32"

definition initial_hash :: sha_state where
  "initial_hash =
     (0x6A09E667, 0xBB67AE85, 0x3C6EF372, 0xA54FF53A,
      0x510E527F, 0x9B05688C, 0x1F83D9AB, 0x5BE0CD19)"

definition sha_ch :: "w32 \<Rightarrow> w32 \<Rightarrow> w32 \<Rightarrow> w32" where
  "sha_ch x y z = (x AND y) XOR (NOT x AND z)"

definition sha_maj :: "w32 \<Rightarrow> w32 \<Rightarrow> w32 \<Rightarrow> w32" where
  "sha_maj x y z = (x AND y) XOR (x AND z) XOR (y AND z)"

definition big_sigma0 :: "w32 \<Rightarrow> w32" where
  "big_sigma0 x = word_rotr 2 x XOR word_rotr 13 x XOR word_rotr 22 x"

definition big_sigma1 :: "w32 \<Rightarrow> w32" where
  "big_sigma1 x = word_rotr 6 x XOR word_rotr 11 x XOR word_rotr 25 x"

definition small_sigma0 :: "w32 \<Rightarrow> w32" where
  "small_sigma0 x = word_rotr 7 x XOR word_rotr 18 x XOR drop_bit 3 x"

definition small_sigma1 :: "w32 \<Rightarrow> w32" where
  "small_sigma1 x = word_rotr 17 x XOR word_rotr 19 x XOR drop_bit 10 x"

definition length_field :: "nat \<Rightarrow> bytes" where
  "length_field n = map (\<lambda>i. of_nat (n div 2 ^ (8 * i))) [7, 6, 5, 4, 3, 2, 1, 0]"

definition pad_message :: "bytes \<Rightarrow> bytes" where
  "pad_message m =
     m @ [0x80] @ replicate ((119 - length m mod 64) mod 64) 0
       @ length_field (8 * length m)"

fun big_endian_words :: "bytes \<Rightarrow> w32 list" where
  "big_endian_words (a # b # c # d # r) =
     (push_bit 24 (ucast a) OR push_bit 16 (ucast b) OR push_bit 8 (ucast c) OR ucast d)
       # big_endian_words r"
| "big_endian_words _ = []"

fun schedule :: "nat \<Rightarrow> w32 list \<Rightarrow> w32 list" where
  "schedule 0 ws = ws"
| "schedule (Suc n) ws =
     schedule n
       (ws @ [small_sigma1 (ws ! (length ws - 2)) + ws ! (length ws - 7)
                + small_sigma0 (ws ! (length ws - 15)) + ws ! (length ws - 16)])"

fun sha_round :: "sha_state \<Rightarrow> w32 \<times> w32 \<Rightarrow> sha_state" where
  "sha_round (a, b, c, d, e, f, g, h) (k, w) =
     (let t1 = h + big_sigma1 e + sha_ch e f g + k + w;
          t2 = big_sigma0 a + sha_maj a b c
      in (t1 + t2, a, b, c, d + t1, e, f, g))"

fun add_state :: "sha_state \<Rightarrow> sha_state \<Rightarrow> sha_state" where
  "add_state (a, b, c, d, e, f, g, h) (a', b', c', d', e', f', g', h') =
     (a + a', b + b', c + c', d + d', e + e', f + f', g + g', h + h')"

definition compress :: "sha_state \<Rightarrow> bytes \<Rightarrow> sha_state" where
  "compress st block =
     add_state st (foldl sha_round st (zip K256 (schedule 48 (big_endian_words block))))"

fun blocks :: "nat \<Rightarrow> bytes \<Rightarrow> bytes list" where
  "blocks 0 m = []"
| "blocks (Suc n) m = take 64 m # blocks n (drop 64 m)"

definition word_octets :: "w32 \<Rightarrow> bytes" where
  "word_octets w = [ucast (drop_bit 24 w), ucast (drop_bit 16 w), ucast (drop_bit 8 w), ucast w]"

fun state_octets :: "sha_state \<Rightarrow> bytes" where
  "state_octets (a, b, c, d, e, f, g, h) =
     word_octets a @ word_octets b @ word_octets c @ word_octets d
       @ word_octets e @ word_octets f @ word_octets g @ word_octets h"

definition sha256 :: "bytes \<Rightarrow> bytes" where
  "sha256 m =
     state_octets
       (foldl compress initial_hash (blocks (length (pad_message m) div 64) (pad_message m)))"

definition hex_digit :: "nat \<Rightarrow> nat" where
  "hex_digit n = (if n < 10 then 48 + n else 87 + n)"

definition hexdigest :: "bytes \<Rightarrow> str" where
  "hexdigest bs = concat (map (\<lambda>b. [hex_digit (unat b div 16), hex_digit (unat b mod 16)]) bs)"

subsection \<open>\<open>base64.urlsafe_b64encode\<close> and \<open>base64.urlsafe_b64decode\<close>\<close>

text \<open>
  The encoder is \<open>binascii.b2a_base64\<close> without the newline, followed by the
  translation of \<open>+\<close> and \<open>/\<close> to \<open>-\<close> and \<open>_\<close>. The decoder translates back and
  runs \<open>binascii.a2b_base64\<close> in its lenient mode: octets outside the alphabet are
  skipped, a pad that completes a quad ends the input, and input that ends inside a quad
  raises \<open>binascii.Error\<close>.
\<close>

definition table_b2a :: "nat \<Rightarrow> nat" where
  "table_b2a i =
     (if i < 26 then 65 + i
      else if i < 52 then 71 + i
      else if i < 62 then i - 4
      else if i = 62 then 43
      else 47)"

definition table_a2b :: "nat \<Rightarrow> nat option" where
  "table_a2b c =
     (if 65 \<le> c \<and> c \<le> 90 then Some (c - 65)
      else if 97 \<le> c \<and> c \<le> 122 then Some (c - 71)
      else if 48 \<le> c \<and> c \<le> 57 then Some (c + 4)
      else if c = 43 then Some 62
      else if c = 47 then Some 63
      else None)"

fun b2a_base64 :: "nat list \<Rightarrow> nat list" where
  "b2a_base64 (a # b # c # r) =
     [table_b2a (a div 4), table_b2a (a mod 4 * 16 + b div 16),
      table_b2a (b mod 16 * 4 + c div 64), table_b2a (c mod 64)] @ b2a_base64 r"
| "b2a_base64 [a, b] =
     [table_b2a (a div 4), table_b2a (a mod 4 * 16 + b div 16), table_b2a (b mod 16 * 4), 61]"
| "b2a_base64 [a] = [table_b2a (a div 4), table_b2a (a mod 4 * 16), 61, 61]"
| "b2a_base64 [] = []"

fun a2b_base64 :: "nat \<Rightarrow> nat \<Rightarrow> nat \<Rightarrow> nat list \<Rightarrow> nat list \<Rightarrow> error + nat list" where
  "a2b_base64 quad_pos leftchar pads out [] =
     (if quad_pos \<noteq> 0 then Inl binascii_Error else Inr out)"
| "a2b_base64 quad_pos leftchar pads out (c # cs) =
     (if c = 61 then
        (if 2 \<le> quad_pos \<and> 4 \<le> quad_pos + (pads + 1) then Inr out
         else a2b_base64 quad_pos leftchar (if 2 \<le> quad_pos then pads + 1 else pads) out cs)
      else
        (case table_a2b c of
           None \<Rightarrow> a2b_base64 quad_pos leftchar pads out cs
         | Some v \<Rightarrow>
             if quad_pos = 0 then a2b_base64 1 v 0 out cs
             else if quad_pos = 1 then
               a2b_base64 2 (v mod 16) 0 (out @ [leftchar * 4 + v div 16]) cs
             else if quad_pos = 2 then
               a2b_base64 3 (v mod 4) 0 (out @ [leftchar * 16 + v div 4]) cs
             else a2b_base64 0 0 0 (out @ [leftchar * 64 + v]) cs))"

definition urlsafe_encode_translation :: "nat \<Rightarrow> nat" where
  "urlsafe_encode_translation c = (if c = 43 then 45 else if c = 47 then 95 else c)"

definition urlsafe_decode_translation :: "nat \<Rightarrow> nat" where
  "urlsafe_decode_translation c = (if c = 45 then 43 else if c = 95 then 47 else c)"

definition urlsafe_b64encode :: "bytes \<Rightarrow> bytes" where
  "urlsafe_b64encode s =
     map (\<lambda>c. of_nat (urlsafe_encode_translation c)) (b2a_base64 (map unat s))"

definition urlsafe_b64decode :: "bytes \<Rightarrow> error + bytes" where
  "urlsafe_b64decode s =
     (case a2b_base64 0 0 0 [] (map (\<lambda>b. urlsafe_decode_translation (unat b)) s) of
        Inl e \<Rightarrow> Inl e
      | Inr out \<Rightarrow> Inr (map of_nat out))"

section \<open>Cryptographic helpers of \<open>codline.py\<close>\<close>

text \<open>
  \<open>hash_text\<close>, \<open>_derive_xor_key\<close>, \<open>encrypt_password\<close> and \<open>decrypt_password\<close> are
  the same in \<open>src/codline.py\<close> and \<open>src/Visual/codline.py\<close>.
\<close>

definition hash_text :: "str \<Rightarrow> error + str" where
  "hash_text t =
     (case encode_utf8 t of Inl e \<Rightarrow> Inl e | Inr bs \<Rightarrow> Inr (hexdigest (sha256 bs)))"

definition derive_xor_key :: "str \<Rightarrow> error + bytes" where
  "derive_xor_key password =
     (case encode_utf8 password of Inl e \<Rightarrow> Inl e | Inr bs \<Rightarrow> Inr (sha256 bs))"

text \<open>
  \<open>bytes(b ^ key[i % len(key)] for i, b in enumerate(data))\<close>: the remainder by an
  empty key raises as soon as there is a first octet.
\<close>

definition xor_with_key :: "bytes \<Rightarrow> bytes \<Rightarrow> error + bytes" where
  "xor_with_key key data =
     (if data \<noteq> [] \<and> key = [] then Inl ZeroDivisionError
      else Inr (map (\<lambda>(i, b). b XOR key ! (i mod length key)) (enumerate 0 data)))"

definition encrypt_password :: "str \<Rightarrow> str \<Rightarrow> error + str" where
  "encrypt_password raw_password admin_password =
     (case derive_xor_key admin_password of
        Inl e \<Rightarrow> Inl e
      | Inr key \<Rightarrow>
          (case encode_utf8 raw_password of
             Inl e \<Rightarrow> Inl e
           | Inr data \<Rightarrow>
               (case xor_with_key key data of
                  Inl e \<Rightarrow> Inl e
                | Inr encrypted \<Rightarrow> decode_utf8 (urlsafe_b64encode encrypted))))"

definition decrypt_password :: "str \<Rightarrow> str \<Rightarrow> error + str" where
  "decrypt_password encrypted_password admin_password =
     (case derive_xor_key admin_password of
        Inl e \<Rightarrow> Inl e
      | Inr key \<Rightarrow>
          (case encode_utf8 encrypted_password of
             Inl e \<Rightarrow> Inl e
           | Inr raw \<Rightarrow>
               (case urlsafe_b64decode raw of
                  Inl e \<Rightarrow> Inl e
                | Inr data \<Rightarrow>
                    (case xor_with_key key data of
                       Inl e \<Rightarrow> Inl e
                     | Inr decrypted \<Rightarrow> decode_utf8 decrypted))))"

text \<open>
  Text that \<open>str.encode("utf-8")\<close> accepts: Unicode scalar values only.
\<close>

definition encodable :: "str \<Rightarrow> bool" where
  "encodable t = (\<forall>c\<in>set t. c < 0x110000 \<and> \<not> (0xD800 \<le> c \<and> c \<le> 0xDFFF))"

text \<open>The characters of \<open>base64.urlsafe_b64encode(s)\<close>, as code points.\<close>

definition b64_text :: "bytes \<Rightarrow> str" where
  "b64_text s = map urlsafe_encode_translation (b2a_base64 (map unat s))"

section \<open>Text operations of \<open>str\<close>\<close>

text \<open>
  \<open>str.strip()\<close> removes the characters for which \<open>str.isspace\<close> holds from both
  ends of the text.
\<close>

definition isspace :: "nat \<Rightarrow> bool" where
  "isspace c =
     ((0x09 \<le> c \<and> c \<le> 0x0D) \<or> (0x1C \<le> c \<and> c \<le> 0x20) \<or> c = 0x85 \<or> c = 0xA0
      \<or> c = 0x1680 \<or> (0x2000 \<le> c \<and> c \<le> 0x200A) \<or> c = 0x2028 \<or> c = 0x2029
      \<or> c = 0x202F \<or> c = 0x205F \<or> c = 0x3000)"

definition strip :: "str \<Rightarrow> str" where
  "strip s = rev (dropWhile isspace (rev (dropWhile isspace s)))"

section \<open>Records of the store\<close>

text \<open>
  What \<open>json.load\<close> returns. A float keeps the text of its literal; the keys of an
  object are distinct, as the keys of a Python \<open>dict\<close> are.
\<close>

datatype json =
    JNull
  | JBool bool
  | JInt int
  | JFloat str
  | JStr str
  | JList "json list"
  | JDict "(str \<times> json) list"

type_synonym dict = "(str \<times> json) list"

text \<open>\<open>d[k]\<close>, \<open>d.get(k, default)\<close> and \<open>d[k] = v\<close> on a \<open>dict\<close>.\<close>

definition getitem :: "dict \<Rightarrow> str \<Rightarrow> error + json" where
  "getitem d k = (case map_of d k of None \<Rightarrow> Inl KeyError | Some v \<Rightarrow> Inr v)"

definition get :: "dict \<Rightarrow> str \<Rightarrow> json \<Rightarrow> json" where
  "get d k fallback = (case map_of d k of None \<Rightarrow> fallback | Some v \<Rightarrow> v)"

definition setitem :: "str \<Rightarrow> json \<Rightarrow> dict \<Rightarrow> dict" where
  "setitem k v d = AList.update k v d"

subsection \<open>\<open>src/codline.py\<close>: an entry is a \<open>dict\<close>\<close>

text \<open>
  \<open>now\<close> is the text that \<open>datetime.utcnow().isoformat()\<close> returns at the call.
\<close>

definition build_entry :: "str \<Rightarrow> str \<Rightarrow> str \<Rightarrow> str \<Rightarrow> str \<Rightarrow> error + dict" where
  "build_entry now site' username' password admin_password =
     (case hash_text password of
        Inl e \<Rightarrow> Inl e
      | Inr h \<Rightarrow>
          (case encrypt_password password admin_password of
             Inl e \<Rightarrow> Inl e
           | Inr c \<Rightarrow>
               Inr [(lit ''site'', JStr (strip site')),
                    (lit ''username'', JStr (strip username')),
                    (lit ''password_hash'', JStr h),
                    (lit ''password_encrypted'', JStr c),
                    (lit ''created_at'', JStr now),
                    (lit ''updated_at'', JStr now)]))"

text \<open>
  The assignments of \<open>edit_entry\<close> (lines 436 to 444) to the selected entry, from the
  three answers typed: a blank answer keeps the field, and \<open>updated_at\<close> is assigned
  in every case.
\<close>

definition edit_entry_fields :: "str \<Rightarrow> str \<Rightarrow> str \<Rightarrow> str \<Rightarrow> str \<Rightarrow> dict \<Rightarrow> error + dict" where
  "edit_entry_fields now admin_password new_site new_username new_password entry =
     (let e1 = (if new_site \<noteq> [] then setitem (lit ''site'') (JStr new_site) entry else entry);
          e2 = (if new_username \<noteq> [] then setitem (lit ''username'') (JStr new_username) e1
                else e1)
      in if new_password \<noteq> [] then
           (case hash_text new_password of
              Inl e \<Rightarrow> Inl e
            | Inr h \<Rightarrow>
                (case encrypt_password new_password admin_password of
                   Inl e \<Rightarrow> Inl e
                 | Inr c \<Rightarrow>
                     Inr (setitem (lit ''updated_at'') (JStr now)
                            (setitem (lit ''password_encrypted'') (JStr c)
                               (setitem (lit ''password_hash'') (JStr h) e2)))))
         else Inr (setitem (lit ''updated_at'') (JStr now) e2))"

subsection \<open>\<open>src/Visual/codline.py\<close>: the dataclass \<open>Entry\<close>\<close>

record Entry =
  site :: str
  username :: str
  password_hash :: str
  password_encrypted :: str
  created_at :: str
  updated_at :: str

definition Entry_build :: "str \<Rightarrow> str \<Rightarrow> str \<Rightarrow> str \<Rightarrow> str \<Rightarrow> error + Entry" where
  "Entry_build timestamp site' username' password admin_password =
     (case hash_text password of
        Inl e \<Rightarrow> Inl e
      | Inr h \<Rightarrow>
          (case encrypt_password password admin_password of
             Inl e \<Rightarrow> Inl e
           | Inr c \<Rightarrow>
               Inr \<lparr>site = strip site', username = strip username', password_hash = h,
                    password_encrypted = c, created_at = timestamp, updated_at = timestamp\<rparr>))"

definition update_password :: "str \<Rightarrow> str \<Rightarrow> str \<Rightarrow> Entry \<Rightarrow> error + Entry" where
  "update_password now password admin_password self =
     (case hash_text password of
        Inl e \<Rightarrow> Inl e
      | Inr h \<Rightarrow>
          (case encrypt_password password admin_password of
             Inl e \<Rightarrow> Inl e
           | Inr c \<Rightarrow>
               Inr (self\<lparr>password_hash := h, password_encrypted := c, updated_at := now\<rparr>)))"

definition update_login :: "str \<Rightarrow> str option \<Rightarrow> str option \<Rightarrow> Entry \<Rightarrow> Entry" where
  "update_login now site' username' self =
     (let e1 = (case site' of None \<Rightarrow> self | Some s \<Rightarrow> self\<lparr>site := strip s\<rparr>);
          e2 = (case username' of None \<Rightarrow> e1 | Some u \<Rightarrow> e1\<lparr>username := strip u\<rparr>)
      in e2\<lparr>updated_at := now\<rparr>)"

definition to_dict :: "Entry \<Rightarrow> dict" where
  "to_dict self =
     [(lit ''site'', JStr (site self)),
      (lit ''username'', JStr (username self)),
      (lit ''password_hash'', JStr (password_hash self)),
      (lit ''password_encrypted'', JStr (password_encrypted self)),
      (lit ''created_at'', JStr (created_at self)),
      (lit ''updated_at'', JStr (updated_at self))]"

text \<open>
  \<open>str(v)\<close> is \<open>v\<close> itself for a \<open>str\<close>; for the other values its text comes from
  \<open>repr\<close>, a parameter. \<open>from_dict\<close> reads the clock once for each of its two defaults.
\<close>

definition py_str :: "(json \<Rightarrow> str) \<Rightarrow> json \<Rightarrow> str" where
  "py_str repr v = (case v of JStr s \<Rightarrow> s | _ \<Rightarrow> repr v)"

definition from_dict :: "(json \<Rightarrow> str) \<Rightarrow> str \<Rightarrow> str \<Rightarrow> dict \<Rightarrow> Entry" where
  "from_dict repr now1 now2 payload =
     \<lparr>site = strip (py_str repr (get payload (lit ''site'') (JStr []))),
      username = strip (py_str repr (get payload (lit ''username'') (JStr []))),
      password_hash = py_str repr (get payload (lit ''password_hash'') (JStr [])),
      password_encrypted = py_str repr (get payload (lit ''password_encrypted'') (JStr [])),
      created_at = py_str repr (get payload (lit ''created_at'') (JStr now1)),
      updated_at = py_str repr (get payload (lit ''updated_at'') (JStr now2))\<rparr>"

subsection \<open>The entries the operations can produce\<close>

text \<open>
  The states of one entry during a session with the administrator secret
  \<open>admin_password\<close>: it is built, and then edited, saved and loaded again any number
  of times.
\<close>

inductive reachable :: "str \<Rightarrow> dict \<Rightarrow> bool" for admin_password :: str where
  built: "build_entry now site' username' password admin_password = Inr e
          \<Longrightarrow> reachable admin_password e"
| edited: "reachable admin_password e
          \<Longrightarrow> edit_entry_fields now admin_password new_site new_username new_password e = Inr e'
          \<Longrightarrow> reachable admin_password e'"

inductive reachable_Entry :: "str \<Rightarrow> Entry \<Rightarrow> bool" for admin_password :: str where
  built: "Entry_build now site' username' password admin_password = Inr e
          \<Longrightarrow> reachable_Entry admin_password e"
| password_updated: "reachable_Entry admin_password e
          \<Longrightarrow> update_password now password admin_password e = Inr e'
          \<Longrightarrow> reachable_Entry admin_password e'"
| login_updated: "reachable_Entry admin_password e
          \<Longrightarrow> reachable_Entry admin_password (update_login now site' username' e)"
| reloaded: "reachable_Entry admin_password e
          \<Longrightarrow> reachable_Entry admin_password (from_dict repr now1 now2 (to_dict e))"

section \<open>The machine: files, clock, terminal\<close>

text \<open>
  The store file \<open>DATA_FILE\<close> is kept by what \<open>json.load\<close> makes of its text, and
  \<open>json.dump\<close> writes a file that loads as the value dumped (the values written are
  built from UTF-8 text). The legacy text files and their \<open>.bak\<close> copies are kept
  octet by octet, under a path that is a stem and a suffix; \<open>DATA_FILE\<close> ends in
  neither \<open>.txt\<close> nor \<open>.bak\<close>. \<open>Path.rename\<close> replaces an existing target on
  POSIX and raises on Windows. The clock gives the successive texts of
  \<open>datetime.utcnow().isoformat()\<close>; the terminal gives the lines typed, and end of
  input raises \<open>EOFError\<close>. Banners, prompts and the clearing of the screen are not
  part of the model; every other \<open>print\<close> is a report.
\<close>

datatype stored = NotUtf8 | NotJson | Json json

datatype suffix = Txt | Bak

type_synonym path = "string \<times> suffix"

datatype report =
    ReadError
  | ExceptionText
  | FieldsRequired
  | Stored
  | NoRecords
  | Choice nat json json
  | InvalidInput
  | OutOfRange
  | Updated
  | Deleted json json
  | ChoiceOf nat str str
  | InvalidSelection
  | Removed
  | Cancelled

record world =
  data_file :: "stored option"
  text_file :: "path \<Rightarrow> bytes option"
  posix :: bool
  clock :: "nat \<Rightarrow> str"
  ticks :: nat
  stdin :: "str list"
  stdout :: "report list"

type_synonym 'a io = "world \<Rightarrow> (error + 'a) \<times> world"

definition io_return :: "'a \<Rightarrow> 'a io" where
  "io_return x w = (Inr x, w)"

definition io_bind :: "'a io \<Rightarrow> ('a \<Rightarrow> 'b io) \<Rightarrow> 'b io" where
  "io_bind m f w = (case m w of (Inl e, w') \<Rightarrow> (Inl e, w') | (Inr x, w') \<Rightarrow> f x w')"

definition lift :: "error + 'a \<Rightarrow> 'a io" where
  "lift r w = (r, w)"

definition py_print :: "report \<Rightarrow> unit io" where
  "py_print r w = (Inr (), w\<lparr>stdout := stdout w @ [r]\<rparr>)"

definition input :: "str io" where
  "input w = (case stdin w of [] \<Rightarrow> (Inl EOFError, w) | l # ls \<Rightarrow> (Inr l, w\<lparr>stdin := ls\<rparr>))"

definition pause :: "unit io" where
  "pause = io_bind input (\<lambda>_. io_return ())"

definition utcnow :: "str io" where
  "utcnow w = (Inr (clock w (ticks w)), w\<lparr>ticks := Suc (ticks w)\<rparr>)"

definition with_suffix :: "suffix \<Rightarrow> path \<Rightarrow> path" where
  "with_suffix x p = (fst p, x)"

definition rename :: "path \<Rightarrow> path \<Rightarrow> unit io" where
  "rename src dst w =
     (case text_file w src of
        None \<Rightarrow> (Inl OSError, w)
      | Some content \<Rightarrow>
          if \<not> posix w \<and> text_file w dst \<noteq> None then (Inl OSError, w)
          else (Inr (), w\<lparr>text_file := (text_file w)(src := None, dst := Some content)\<rparr>))"

text \<open>Reading a text file decodes it and turns \<open>\r\n\<close> and \<open>\r\<close> into \<open>\n\<close>.\<close>

fun universal_newlines :: "str \<Rightarrow> str" where
  "universal_newlines [] = []"
| "universal_newlines (c # cs) =
     (if c = 13 then
        (case cs of
           [] \<Rightarrow> [10]
         | d # ds \<Rightarrow> if d = 10 then 10 # universal_newlines ds else 10 # universal_newlines cs)
      else c # universal_newlines cs)"

definition read_text :: "path \<Rightarrow> str io" where
  "read_text p w =
     (case text_file w p of
        None \<Rightarrow> (Inl OSError, w)
      | Some content \<Rightarrow>
          (case decode_utf8 content of
             Inl e \<Rightarrow> (Inl e, w)
           | Inr t \<Rightarrow> (Inr (universal_newlines t), w)))"

text \<open>\<open>fp.readlines()\<close>: the lines with their line ends.\<close>

fun readlines :: "str \<Rightarrow> str list" where
  "readlines [] = []"
| "readlines (c # cs) =
     (if c = 10 then [10] # readlines cs
      else (case readlines cs of [] \<Rightarrow> [[c]] | l # ls \<Rightarrow> (c # l) # ls))"

text \<open>\<open>str.splitlines()\<close>: the lines without their line ends.\<close>

definition linebreak :: "nat \<Rightarrow> bool" where
  "linebreak c =
     ((10 \<le> c \<and> c \<le> 13) \<or> (0x1C \<le> c \<and> c \<le> 0x1E) \<or> c = 0x85 \<or> c = 0x2028 \<or> c = 0x2029)"

fun splitlines :: "str \<Rightarrow> str list" where
  "splitlines [] = []"
| "splitlines (c # cs) =
     (if linebreak c then
        (case cs of
           [] \<Rightarrow> [[]]
         | d # ds \<Rightarrow> if c = 13 \<and> d = 10 then [] # splitlines ds else [] # splitlines cs)
      else (case splitlines cs of [] \<Rightarrow> [[c]] | l # ls \<Rightarrow> (c # l) # ls))"

text \<open>\<open>s.replace(old, "")\<close>: every occurrence of \<open>old\<close>, from the left, is removed.\<close>

function remove_all :: "str \<Rightarrow> str \<Rightarrow> str" where
  "remove_all old [] = []"
| "remove_all old (c # cs) =
     (if old \<noteq> [] \<and> take (length old) (c # cs) = old
      then remove_all old (drop (length old) (c # cs))
      else c # remove_all old cs)"
  by pat_completeness auto
termination
  by (relation "measure (\<lambda>(old, s). length s)") auto

text \<open>\<open>s.split(":", 1)[1]\<close>: the text after the first colon.\<close>

fun after_colon :: "str \<Rightarrow> error + str" where
  "after_colon [] = Inl IndexError"
| "after_colon (c # cs) = (if c = 58 then Inr cs else after_colon cs)"

section \<open>The store of \<open>src/codline.py\<close>\<close>

fun dicts :: "json list \<Rightarrow> dict list" where
  "dicts [] = []"
| "dicts (JDict d # xs) = d # dicts xs"
| "dicts (_ # xs) = dicts xs"

definition load_entries :: "dict list io" where
  "load_entries w =
     (case data_file w of
        None \<Rightarrow> (Inr [], w)
      | Some NotUtf8 \<Rightarrow> (Inl UnicodeDecodeError, w)
      | Some NotJson \<Rightarrow> (Inr [], w\<lparr>stdout := stdout w @ [ReadError, ExceptionText]\<rparr>)
      | Some (Json (JList xs)) \<Rightarrow> (Inr (dicts xs), w)
      | Some (Json _) \<Rightarrow> (Inl ValueError, w))"

definition save_entries :: "dict list \<Rightarrow> unit io" where
  "save_entries entries w = (Inr (), w\<lparr>data_file := Some (Json (JList (map JDict entries)))\<rparr>)"

text \<open>
  The places of the legacy file: \<open>DATA_FILE.with_suffix(".txt")\<close>, and
  \<open>password_manager.txt\<close> beside the script and in the working directory.
\<close>

record config =
  data_stem :: string
  base_stem :: string
  cwd_stem :: string

fun fromkeys :: "'a list \<Rightarrow> 'a list \<Rightarrow> 'a list" where
  "fromkeys seen [] = []"
| "fromkeys seen (x # xs) = (if x \<in> set seen then fromkeys seen xs else x # fromkeys (x # seen) xs)"

definition LEGACY_FILE_CANDIDATES :: "config \<Rightarrow> path list" where
  "LEGACY_FILE_CANDIDATES cfg =
     fromkeys [] [(data_stem cfg, Txt), (base_stem cfg, Txt), (cwd_stem cfg, Txt)]"

fun first_existing :: "path list \<Rightarrow> world \<Rightarrow> path option" where
  "first_existing [] w = None"
| "first_existing (p # ps) w = (if text_file w p \<noteq> None then Some p else first_existing ps w)"

definition find_legacy_file :: "config \<Rightarrow> world \<Rightarrow> path option" where
  "find_legacy_file cfg w = first_existing (LEGACY_FILE_CANDIDATES cfg) w"

definition site_label :: str where
  "site_label = lit ''Sitio web / Aplicaci'' @ [0xF3] @ lit ''n: ''"

definition username_label :: str where
  "username_label = lit ''Usuario / Correo: ''"

definition password_label :: str where
  "password_label = lit ''Contrase'' @ [0xF1] @ lit ''a: ''"

text \<open>
  The loop of \<open>ensure_storage\<close> over the lines, three at a time; fewer than three
  lines at the end raise \<open>IndexError\<close>, which skips them. The number is the reading
  of the clock that comes next.
\<close>

fun migrate :: "str \<Rightarrow> (nat \<Rightarrow> str) \<Rightarrow> nat \<Rightarrow> str list \<Rightarrow> (error + dict list) \<times> nat" where
  "migrate admin_password clk n (a # b # c # rest) =
     (case build_entry (clk n) (remove_all site_label a) (remove_all username_label b)
             (remove_all password_label c) admin_password of
        Inl e \<Rightarrow> (Inl e, Suc n)
      | Inr x \<Rightarrow>
          (case migrate admin_password clk (Suc n) rest of
             (Inl e, n') \<Rightarrow> (Inl e, n')
           | (Inr xs, n') \<Rightarrow> (Inr (x # xs), n')))"
| "migrate admin_password clk n _ = (Inr [], n)"

definition ensure_storage :: "config \<Rightarrow> str \<Rightarrow> unit io" where
  "ensure_storage cfg admin_password w =
     (if data_file w \<noteq> None then (Inr (), w)
      else
        (case find_legacy_file cfg w of
           None \<Rightarrow> save_entries [] w
         | Some legacy_file \<Rightarrow>
             (case read_text legacy_file w of
                (Inl e, w') \<Rightarrow> (Inl e, w')
              | (Inr content, w') \<Rightarrow>
                  (case migrate admin_password (clock w') (ticks w')
                          (filter (\<lambda>l. l \<noteq> []) (map strip (readlines content))) of
                     (Inl e, n) \<Rightarrow> (Inl e, w'\<lparr>ticks := n\<rparr>)
                   | (Inr entries, n) \<Rightarrow>
                       (case io_bind (save_entries entries)
                               (\<lambda>_. rename legacy_file (with_suffix Bak legacy_file))
                               (w'\<lparr>ticks := n\<rparr>) of
                          (Inl OSError, w'') \<Rightarrow> (Inr (), w'')
                        | r \<Rightarrow> r)))))"

section \<open>The store of \<open>src/Visual/codline.py\<close>\<close>

text \<open>
  Iterating over what \<open>json.load\<close> returned: the items of a list, the keys of an
  object, the characters of a string; any other value raises \<open>TypeError\<close>.
\<close>

definition iterate :: "json \<Rightarrow> error + json list" where
  "iterate v =
     (case v of
        JList xs \<Rightarrow> Inr xs
      | JDict kvs \<Rightarrow> Inr (map (\<lambda>kv. JStr (fst kv)) kvs)
      | JStr s \<Rightarrow> Inr (map (\<lambda>c. JStr [c]) s)
      | _ \<Rightarrow> Inl TypeError)"

definition visual_load_entries :: "(json \<Rightarrow> str) \<Rightarrow> Entry list io" where
  "visual_load_entries repr w =
     (case data_file w of
        None \<Rightarrow> (Inr [], w)
      | Some NotUtf8 \<Rightarrow> (Inl UnicodeDecodeError, w)
      | Some NotJson \<Rightarrow> (Inr [], w\<lparr>stdout := stdout w @ [ReadError, ExceptionText]\<rparr>)
      | Some (Json raw_entries) \<Rightarrow>
          (case iterate raw_entries of
             Inl e \<Rightarrow> (Inl e, w)
           | Inr items \<Rightarrow>
               (Inr (map (\<lambda>(i, d). from_dict repr (clock w (ticks w + 2 * i))
                                    (clock w (ticks w + 2 * i + 1)) d)
                       (enumerate 0 (dicts items))),
                w\<lparr>ticks := ticks w + 2 * length (dicts items)\<rparr>)))"

definition visual_save_entries :: "Entry list \<Rightarrow> unit io" where
  "visual_save_entries entries w =
     (Inr (), w\<lparr>data_file := Some (Json (JList (map (\<lambda>e. JDict (to_dict e)) entries)))\<rparr>)"

definition LEGACY_FILE :: path where
  "LEGACY_FILE = (''password_manager'', Txt)"

text \<open>
  The loop of the Visual \<open>ensure_storage\<close>: a record every four lines, of which the
  first three are read; a line without a colon, or a missing line, skips the record.
\<close>

definition three_fields :: "str \<Rightarrow> str \<Rightarrow> str \<Rightarrow> error + str \<times> str \<times> str" where
  "three_fields a b c =
     (case after_colon a of
        Inl e \<Rightarrow> Inl e
      | Inr s \<Rightarrow>
          (case after_colon b of
             Inl e \<Rightarrow> Inl e
           | Inr u \<Rightarrow>
               (case after_colon c of
                  Inl e \<Rightarrow> Inl e
                | Inr p \<Rightarrow> Inr (strip s, strip u, strip p))))"

fun visual_migrate ::
  "str \<Rightarrow> (nat \<Rightarrow> str) \<Rightarrow> nat \<Rightarrow> str list \<Rightarrow> (error + Entry list) \<times> nat" where
  "visual_migrate admin_password clk n (a # b # c # rest) =
     (case three_fields a b c of
        Inl e \<Rightarrow> visual_migrate admin_password clk n (drop 1 rest)
      | Inr (s, u, p) \<Rightarrow>
          (case Entry_build (clk n) s u p admin_password of
             Inl e \<Rightarrow> (Inl e, Suc n)
           | Inr x \<Rightarrow>
               (case visual_migrate admin_password clk (Suc n) (drop 1 rest) of
                  (Inl e, n') \<Rightarrow> (Inl e, n')
                | (Inr xs, n') \<Rightarrow> (Inr (x # xs), n'))))"
| "visual_migrate admin_password clk n _ = (Inr [], n)"

definition visual_ensure_storage :: "str \<Rightarrow> unit io" where
  "visual_ensure_storage admin_password w =
     (if data_file w \<noteq> None then (Inr (), w)
      else if text_file w LEGACY_FILE = None then visual_save_entries [] w
      else
        (case read_text LEGACY_FILE w of
           (Inl e, w') \<Rightarrow> (Inl e, w')
         | (Inr content, w') \<Rightarrow>
             (case visual_migrate admin_password (clock w') (ticks w') (splitlines content) of
                (Inl e, n) \<Rightarrow> (Inl e, w'\<lparr>ticks := n\<rparr>)
              | (Inr migrated, n) \<Rightarrow>
                  io_bind (visual_save_entries migrated)
                    (\<lambda>_. rename LEGACY_FILE (with_suffix Bak LEGACY_FILE))
                    (w'\<lparr>ticks := n\<rparr>))))"

section \<open>The operations of \<open>src/codline.py\<close>\<close>

text \<open>
  \<open>to_int\<close> is a parameter of \<open>select_entry\<close>: the built-in \<open>int(text)\<close>, with
  \<open>None\<close> for its \<open>ValueError\<close>. \<open>getpass\<close> reads the next line typed, as
  \<open>input\<close> does.
\<close>

definition add_entry :: "str \<Rightarrow> unit io" where
  "add_entry admin_password =
     io_bind input (\<lambda>l1. io_bind input (\<lambda>l2. io_bind input (\<lambda>password.
       if strip l1 = [] \<or> strip l2 = [] \<or> password = []
       then io_bind (py_print FieldsRequired) (\<lambda>_. pause)
       else
         io_bind load_entries (\<lambda>entries.
         io_bind utcnow (\<lambda>now.
         io_bind (lift (build_entry now (strip l1) (strip l2) password admin_password)) (\<lambda>e.
         io_bind (save_entries (entries @ [e])) (\<lambda>_.
         io_bind (py_print Stored) (\<lambda>_. pause))))))))"

fun print_choices :: "nat \<Rightarrow> dict list \<Rightarrow> unit io" where
  "print_choices idx [] w = (Inr (), w)"
| "print_choices idx (entry # entries) w =
     (case getitem entry (lit ''site'') of
        Inl e \<Rightarrow> (Inl e, w)
      | Inr s \<Rightarrow>
          (case getitem entry (lit ''username'') of
             Inl e \<Rightarrow> (Inl e, w)
           | Inr u \<Rightarrow> print_choices (Suc idx) entries (w\<lparr>stdout := stdout w @ [Choice idx s u]\<rparr>)))"

definition select_entry :: "(str \<Rightarrow> int option) \<Rightarrow> dict list \<Rightarrow> nat option io" where
  "select_entry to_int entries =
     (if entries = [] then
        io_bind (py_print NoRecords) (\<lambda>_. io_bind pause (\<lambda>_. io_return None))
      else
        io_bind (print_choices 1 entries) (\<lambda>_.
        io_bind input (\<lambda>answer.
          case to_int answer of
            None \<Rightarrow> io_bind (py_print InvalidInput) (\<lambda>_. io_bind pause (\<lambda>_. io_return None))
          | Some selection \<Rightarrow>
              if selection = 0 then io_return None
              else if 1 \<le> selection \<and> selection \<le> of_nat (length entries)
              then io_return (Some (nat (selection - 1)))
              else io_bind (py_print OutOfRange) (\<lambda>_. io_bind pause (\<lambda>_. io_return None)))))"

definition delete_entry :: "(str \<Rightarrow> int option) \<Rightarrow> unit io" where
  "delete_entry to_int =
     io_bind load_entries (\<lambda>entries.
     io_bind (select_entry to_int entries) (\<lambda>index.
       case index of
         None \<Rightarrow> io_return ()
       | Some i \<Rightarrow>
           io_bind (save_entries (take i entries @ drop (Suc i) entries)) (\<lambda>_.
           io_bind (lift (getitem (entries ! i) (lit ''site''))) (\<lambda>s.
           io_bind (lift (getitem (entries ! i) (lit ''username''))) (\<lambda>u.
           io_bind (py_print (Deleted s u)) (\<lambda>_. pause))))))"

text \<open>
  In \<open>edit_entry\<close> the clock is read after the password has been hashed and encrypted.
\<close>

definition edit_entry :: "(str \<Rightarrow> int option) \<Rightarrow> str \<Rightarrow> unit io" where
  "edit_entry to_int admin_password =
     io_bind load_entries (\<lambda>entries.
     io_bind (select_entry to_int entries) (\<lambda>index.
       case index of
         None \<Rightarrow> io_return ()
       | Some i \<Rightarrow>
           io_bind (lift (getitem (entries ! i) (lit ''site''))) (\<lambda>_.
           io_bind input (\<lambda>l1.
           io_bind (lift (getitem (entries ! i) (lit ''username''))) (\<lambda>_.
           io_bind input (\<lambda>l2.
           io_bind input (\<lambda>new_password.
           io_bind (\<lambda>w. case edit_entry_fields (clock w (ticks w)) admin_password
                                (strip l1) (strip l2) new_password (entries ! i) of
                           Inl e \<Rightarrow> (Inl e, w)
                         | Inr entry \<Rightarrow> (Inr entry, w\<lparr>ticks := Suc (ticks w)\<rparr>)) (\<lambda>entry.
           io_bind (save_entries (entries[i := entry])) (\<lambda>_.
           io_bind (py_print Updated) (\<lambda>_. pause))))))))))"

text \<open>
  The rows of \<open>list_entries\<close> (lines 365 to 380), over the entries that sorting and
  filtering left. \<open>iso_strftime f t\<close> is \<open>datetime.fromisoformat(t).strftime(f)\<close>, a
  parameter, with \<open>None\<close> where \<open>fromisoformat\<close> raises \<open>ValueError\<close>.
\<close>

datatype cell = Plain str | DecryptError

definition password_cell :: "str \<Rightarrow> dict \<Rightarrow> cell" where
  "password_cell admin_password entry =
     (case getitem entry (lit ''password_encrypted'') of
        Inr (JStr c) \<Rightarrow>
          (case decrypt_password c admin_password of Inl e \<Rightarrow> DecryptError | Inr p \<Rightarrow> Plain p)
      | _ \<Rightarrow> DecryptError)"

definition format_datetime :: "(str \<Rightarrow> str \<Rightarrow> str option) \<Rightarrow> json \<Rightarrow> error + str" where
  "format_datetime iso_strftime v =
     (case v of
        JStr t \<Rightarrow>
          (case iso_strftime (lit ''%d/%m/%Y %H:%M'') t of None \<Rightarrow> Inr t | Some f \<Rightarrow> Inr f)
      | _ \<Rightarrow> Inl TypeError)"

type_synonym row = "nat \<times> json \<times> json \<times> cell \<times> str"

fun list_rows ::
  "(str \<Rightarrow> str \<Rightarrow> str option) \<Rightarrow> str \<Rightarrow> nat \<Rightarrow> dict list \<Rightarrow> error + row list" where
  "list_rows iso_strftime admin_password idx [] = Inr []"
| "list_rows iso_strftime admin_password idx (entry # filtered) =
     (case getitem entry (lit ''site'') of
        Inl e \<Rightarrow> Inl e
      | Inr s \<Rightarrow>
          (case getitem entry (lit ''username'') of
             Inl e \<Rightarrow> Inl e
           | Inr u \<Rightarrow>
               (case getitem entry (lit ''updated_at'') of
                  Inl e \<Rightarrow> Inl e
                | Inr t \<Rightarrow>
                    (case format_datetime iso_strftime t of
                       Inl e \<Rightarrow> Inl e
                     | Inr d \<Rightarrow>
                         (case list_rows iso_strftime admin_password (Suc idx) filtered of
                            Inl e \<Rightarrow> Inl e
                          | Inr rows \<Rightarrow>
                              Inr ((idx, s, u, password_cell admin_password entry, d) # rows))))))"

section \<open>The operations of \<open>src/Visual/codline.py\<close>\<close>

text \<open>
  The operations work on the list \<open>entries\<close> that \<open>main\<close> loaded and save it whole.
  \<open>isdigit\<close> and \<open>to_int\<close> are parameters of \<open>choose_entry\<close>: the built-ins
  \<open>str.isdigit\<close> and \<open>int(text)\<close>.
\<close>

definition visual_add_entry :: "Entry list \<Rightarrow> str \<Rightarrow> unit io" where
  "visual_add_entry entries admin_password =
     io_bind input (\<lambda>l1. io_bind input (\<lambda>l2. io_bind input (\<lambda>password.
       if strip l1 = [] \<or> strip l2 = [] \<or> password = []
       then io_bind (py_print FieldsRequired) (\<lambda>_. pause)
       else
         io_bind utcnow (\<lambda>now.
         io_bind (lift (Entry_build now (strip l1) (strip l2) password admin_password)) (\<lambda>e.
         io_bind (visual_save_entries (entries @ [e])) (\<lambda>_.
         io_bind (py_print Stored) (\<lambda>_. pause)))))))"

text \<open>
  The loop of \<open>choose_entry\<close> over the answers typed: an empty answer cancels, an
  answer that is a number of the list chooses, any other answer is reported and the
  question is asked again.
\<close>

fun choose_loop ::
  "(str \<Rightarrow> bool) \<Rightarrow> (str \<Rightarrow> int option) \<Rightarrow> nat \<Rightarrow> str list \<Rightarrow> report list
     \<Rightarrow> (error + nat option) \<times> str list \<times> report list" where
  "choose_loop isdigit to_int n [] out = (Inl EOFError, [], out)"
| "choose_loop isdigit to_int n (choice # rest) out =
     (if choice = [] then (Inr None, rest, out)
      else if isdigit choice then
        (case to_int choice of
           None \<Rightarrow> (Inl ValueError, rest, out)
         | Some k \<Rightarrow>
             if 0 \<le> k - 1 \<and> k - 1 < of_nat n then (Inr (Some (nat (k - 1))), rest, out)
             else choose_loop isdigit to_int n rest (out @ [InvalidSelection]))
      else choose_loop isdigit to_int n rest (out @ [InvalidSelection]))"

definition choose_entry ::
  "(str \<Rightarrow> bool) \<Rightarrow> (str \<Rightarrow> int option) \<Rightarrow> Entry list \<Rightarrow> nat option io" where
  "choose_entry isdigit to_int entries w =
     (if entries = [] then
        io_bind (py_print NoRecords) (\<lambda>_. io_bind pause (\<lambda>_. io_return None)) w
      else
        (case choose_loop isdigit to_int (length entries) (stdin w)
                (stdout w @ map (\<lambda>(idx, entry). ChoiceOf idx (site entry) (username entry))
                              (enumerate 1 entries)) of
           (r, rest, out) \<Rightarrow> (r, w\<lparr>stdin := rest, stdout := out\<rparr>)))"

text \<open>
  \<open>confirmation == "s"\<close> after \<open>strip().lower()\<close>: the answer is \<open>s\<close> or \<open>S\<close>, the
  only texts that \<open>str.lower\<close> turns into \<open>s\<close>.
\<close>

definition visual_delete_entry ::
  "(str \<Rightarrow> bool) \<Rightarrow> (str \<Rightarrow> int option) \<Rightarrow> Entry list \<Rightarrow> unit io" where
  "visual_delete_entry isdigit to_int entries =
     io_bind (choose_entry isdigit to_int entries) (\<lambda>chosen.
       case chosen of
         None \<Rightarrow> io_return ()
       | Some i \<Rightarrow>
           io_bind input (\<lambda>answer.
             if strip answer = lit ''s'' \<or> strip answer = lit ''S'' then
               io_bind (visual_save_entries (remove1 (entries ! i) entries)) (\<lambda>_.
               io_bind (py_print Removed) (\<lambda>_. pause))
             else io_bind (py_print Cancelled) (\<lambda>_. pause)))"

definition visual_edit_entry ::
  "(str \<Rightarrow> bool) \<Rightarrow> (str \<Rightarrow> int option) \<Rightarrow> Entry list \<Rightarrow> str \<Rightarrow> unit io" where
  "visual_edit_entry isdigit to_int entries admin_password =
     io_bind (choose_entry isdigit to_int entries) (\<lambda>chosen.
       case chosen of
         None \<Rightarrow> io_return ()
       | Some i \<Rightarrow>
           io_bind input (\<lambda>l1.
           io_bind input (\<lambda>l2.
           io_bind input (\<lambda>new_password.
           io_bind (if l1 \<noteq> [] \<or> l2 \<noteq> [] then
                      io_bind utcnow (\<lambda>now.
                        io_return (update_login now (if l1 = [] then None else Some l1)
                                     (if l2 = [] then None else Some l2) (entries ! i)))
                    else io_return (entries ! i)) (\<lambda>e1.
           io_bind (if new_password \<noteq> [] then
                      (\<lambda>w. case update_password (clock w (ticks w)) new_password
                                   admin_password e1 of
                              Inl e \<Rightarrow> (Inl e, w)
                            | Inr e2 \<Rightarrow> (Inr e2, w\<lparr>ticks := Suc (ticks w)\<rparr>))
                    else io_return e1) (\<lambda>e2.
           io_bind (visual_save_entries (entries[i := e2])) (\<lambda>_.
           io_bind (py_print Updated) (\<lambda>_. pause))))))))"

text \<open>
  The rows of \<open>view_entries\<close> (lines 409 to 419), over the entries that sorting and
  filtering left.
\<close>

fun view_rows ::
  "(str \<Rightarrow> str \<Rightarrow> str option) \<Rightarrow> str \<Rightarrow> Entry list \<Rightarrow> error + (str \<times> str \<times> str \<times> str) list"
  where
  "view_rows iso_strftime admin_password [] = Inr []"
| "view_rows iso_strftime admin_password (entry # ordered) =
     (case decrypt_password (password_encrypted entry) admin_password of
        Inl e \<Rightarrow> Inl e
      | Inr decrypted \<Rightarrow>
          (case iso_strftime (lit ''%Y-%m-%d %H:%M'') (updated_at entry) of
             None \<Rightarrow> Inl ValueError
           | Some d \<Rightarrow>
               (case view_rows iso_strftime admin_password ordered of
                  Inl e \<Rightarrow> Inl e
                | Inr rows \<Rightarrow> Inr ((site entry, username entry, decrypted, d) # rows))))"

section \<open>Properties of entries, and sample values\<close>

text \<open>
  The two password fields of an entry describe one plaintext under the secret.
\<close>

definition same_password :: "str \<Rightarrow> dict \<Rightarrow> bool" where
  "same_password admin_password e =
     (\<exists>p h c. hash_text p = Inr h \<and> encrypt_password p admin_password = Inr c
        \<and> map_of e (lit ''password_hash'') = Some (JStr h)
        \<and> map_of e (lit ''password_encrypted'') = Some (JStr c))"

definition same_password_Entry :: "str \<Rightarrow> Entry \<Rightarrow> bool" where
  "same_password_Entry admin_password e =
     (\<exists>p. hash_text p = Inr (password_hash e)
        \<and> encrypt_password p admin_password = Inr (password_encrypted e))"

text \<open>\<open>int(text)\<close> and \<open>text.isdigit()\<close> for ASCII text.\<close>

fun digits_value :: "int \<Rightarrow> bool \<Rightarrow> str \<Rightarrow> int option" where
  "digits_value acc prev [] = (if prev then Some acc else None)"
| "digits_value acc prev (c # cs) =
     (if 48 \<le> c \<and> c \<le> 57 then digits_value (10 * acc + int (c - 48)) True cs
      else if c = 95 \<and> prev \<and> cs \<noteq> [] then digits_value acc False cs
      else None)"

definition ascii_int :: "str \<Rightarrow> int option" where
  "ascii_int s =
     (case strip s of
        [] \<Rightarrow> None
      | c # cs \<Rightarrow>
          if c = 45 then map_option uminus (digits_value 0 False cs)
          else if c = 43 then digits_value 0 False cs
          else digits_value 0 False (c # cs))"

definition ascii_isdigit :: "str \<Rightarrow> bool" where
  "ascii_isdigit s = (s \<noteq> [] \<and> list_all (\<lambda>c. 48 \<le> c \<and> c \<le> 57) s)"

text \<open>A machine with no file, nothing typed, and a clock that ticks in seconds.\<close>

definition sample_clock :: "nat \<Rightarrow> str" where
  "sample_clock n = lit ''2024-05-01T10:00:0'' @ [48 + n mod 10]"

definition sample_world :: world where
  "sample_world =
     \<lparr>data_file = None, text_file = (\<lambda>p. None), posix = True, clock = sample_clock,
      ticks = 0, stdin = [], stdout = []\<rparr>"

text \<open>
  An entry as \<open>Entry.build("example.org", "ana", "a", "1234")\<close> makes it, and the
  same entry as a \<open>dict\<close>.
\<close>

definition sample_Entry :: Entry where
  "sample_Entry =
     \<lparr>site = lit ''example.org'', username = lit ''ana'',
      password_hash =
        lit ''ca978112ca1bbdcafac231b39a23dc4da786eff8147c4e72b9807785afee48bb'',
      password_encrypted = lit ''Yg=='',
      created_at = sample_clock 0, updated_at = sample_clock 0\<rparr>"

definition sample_entry :: dict where
  "sample_entry = to_dict sample_Entry"

text \<open>
  An answer to \<open>select_entry\<close> that selects one of \<open>n\<close> entries; an entry that
  \<open>select_entry\<close> can list, and one that \<open>list_entries\<close> can show; an answer that
  \<open>choose_entry\<close> refuses, asking again.
\<close>

definition valid_selection :: "(str \<Rightarrow> int option) \<Rightarrow> nat \<Rightarrow> str \<Rightarrow> bool" where
  "valid_selection to_int n answer =
     (case to_int answer of None \<Rightarrow> False | Some k \<Rightarrow> 1 \<le> k \<and> k \<le> int n)"

definition listable :: "dict \<Rightarrow> bool" where
  "listable e = (map_of e (lit ''site'') \<noteq> None \<and> map_of e (lit ''username'') \<noteq> None)"

definition displayable :: "dict \<Rightarrow> bool" where
  "displayable e =
     (map_of e (lit ''site'') \<noteq> None \<and> map_of e (lit ''username'') \<noteq> None
      \<and> (case map_of e (lit ''updated_at'') of Some (JStr t) \<Rightarrow> True | _ \<Rightarrow> False))"

definition refused :: "(str \<Rightarrow> bool) \<Rightarrow> (str \<Rightarrow> int option) \<Rightarrow> nat \<Rightarrow> str \<Rightarrow> bool" where
  "refused isdigit to_int n choice =
     (choice \<noteq> [] \<and>
      (if isdigit choice
       then (case to_int choice of None \<Rightarrow> False | Some k \<Rightarrow> k < 1 \<or> int n < k)
       else True))"

section \<open>The legacy file\<close>

text \<open>
  A value of the legacy file: not empty, no white space at either end, no line break
  inside, and free of the label that \<open>ensure_storage\<close> removes from its line. A
  record of the legacy file: three labelled lines and an empty line.
\<close>

fun occurs :: "str \<Rightarrow> str \<Rightarrow> bool" where
  "occurs old [] = False"
| "occurs old (c # cs) = (take (length old) (c # cs) = old \<or> occurs old cs)"

definition legacy_field :: "str \<Rightarrow> str \<Rightarrow> bool" where
  "legacy_field label v =
     (v \<noteq> [] \<and> \<not> isspace (hd v) \<and> \<not> isspace (last v)
      \<and> list_all (\<lambda>c. \<not> linebreak c) v \<and> \<not> occurs label v)"

definition legacy_record :: "str \<Rightarrow> str \<Rightarrow> str \<Rightarrow> str" where
  "legacy_record s u p =
     site_label @ s @ [10] @ username_label @ u @ [10] @ password_label @ p @ [10, 10]"

text \<open>The number of records in the store file.\<close>

definition stored_count :: "world \<Rightarrow> nat option" where
  "stored_count w =
     (case data_file w of Some (Json (JList xs)) \<Rightarrow> Some (length xs) | _ \<Rightarrow> None)"

section \<open>The codecs invert each other\<close>

lemma state_octets_length: "length (state_octets s) = 32"
  by (cases s rule: state_octets.cases) (simp add: word_octets_def)

lemma sha256_length: "length (sha256 m) = 32"
  by (simp add: sha256_def state_octets_length)

lemma regroup: "(x * 64 + y) * k = x * (64 * k) + y * (k::nat)"
  by (simp add: algebra_simps)

lemma join3: "(c::nat) div 4096 * 4096 + c div 64 mod 64 * 64 + c mod 64 = c"
proof -
  have "c div 4096 = c div 64 div 64" by (simp add: div_mult2_eq)
  moreover have "c div 64 div 64 * 4096 + c div 64 mod 64 * 64 = c div 64 * 64"
    using regroup [of "c div 64 div 64" "c div 64 mod 64" 64] by simp
  ultimately show ?thesis by simp
qed

lemma join4:
  "(c::nat) div 262144 * 262144 + c div 4096 mod 64 * 4096 + c div 64 mod 64 * 64 + c mod 64 = c"
proof -
  have "c div 262144 = c div 4096 div 64" by (simp add: div_mult2_eq)
  moreover have "c div 4096 div 64 * 262144 + c div 4096 mod 64 * 4096 = c div 4096 * 4096"
    using regroup [of "c div 4096 div 64" "c div 4096 mod 64" 4096] by simp
  ultimately show ?thesis using join3 [of c] by simp
qed

lemma decode2:
  assumes "0x80 \<le> c" "c < 0x800"
  shows "decode_octets ([0xC0 + c div 64, 0x80 + c mod 64] @ rest) = emit c (decode_octets rest)"
proof -
  have "2 \<le> c div 64" "c div 64 < 32" using assms by arith+
  then show ?thesis by (simp add: continuation_def)
qed

lemma decode3:
  assumes "0x800 \<le> c" "c < 0x10000" "\<not> (0xD800 \<le> c \<and> c \<le> 0xDFFF)"
  shows "decode_octets ([0xE0 + c div 4096, 0x80 + c div 64 mod 64, 0x80 + c mod 64] @ rest)
           = emit c (decode_octets rest)"
proof -
  have "c div 4096 < 16" using assms by arith
  then show ?thesis using assms by (simp add: continuation_def join3)
qed

lemma decode4:
  assumes "0x10000 \<le> c" "c < 0x110000"
  shows "decode_octets ([0xF0 + c div 262144, 0x80 + c div 4096 mod 64,
                         0x80 + c div 64 mod 64, 0x80 + c mod 64] @ rest)
           = emit c (decode_octets rest)"
proof -
  have "c div 262144 < 5" using assms by arith
  then show ?thesis using assms by (simp add: continuation_def join4)
qed

lemma utf8_char_decode:
  assumes "utf8_char c = Inr bs"
  shows "decode_octets (bs @ rest) = emit c (decode_octets rest)"
proof -
  consider "c < 0x80" | "0x80 \<le> c" "c < 0x800" | "0x800 \<le> c" "c < 0x10000" | "0x10000 \<le> c"
    by linarith
  then show ?thesis
  proof cases
    case 1
    then show ?thesis using assms by (auto simp: utf8_char_def)
  next
    case 2
    then have "bs = [0xC0 + c div 64, 0x80 + c mod 64]" using assms by (auto simp: utf8_char_def)
    then show ?thesis using decode2 [OF 2] by simp
  next
    case 3
    then have "bs = [0xE0 + c div 4096, 0x80 + c div 64 mod 64, 0x80 + c mod 64]"
      and "\<not> (0xD800 \<le> c \<and> c \<le> 0xDFFF)"
      using assms by (auto simp: utf8_char_def split: if_splits)
    then show ?thesis using decode3 [OF 3] by simp
  next
    case 4
    then have "bs = [0xF0 + c div 262144, 0x80 + c div 4096 mod 64,
                         0x80 + c div 64 mod 64, 0x80 + c mod 64]" and "c < 0x110000"
      using assms by (auto simp: utf8_char_def split: if_splits)
    then show ?thesis using decode4 [OF 4(1)] by simp
  qed
qed

lemma utf8_char_octets: "utf8_char c = Inr bs \<Longrightarrow> b \<in> set bs \<Longrightarrow> b < 256"
  unfolding utf8_char_def
  by (auto split: if_splits)

lemma unat_of_nat_octet: "n < 256 \<Longrightarrow> unat (of_nat n :: byte) = n"
  by (simp add: unat_of_nat)

lemma map_unat_of_nat:
  "\<forall>n\<in>set ns. n < 256 \<Longrightarrow> map unat (map of_nat ns :: bytes) = ns"
  by (induction ns) (simp_all add: unat_of_nat_octet)

lemma map_of_nat_unat: "map of_nat (map unat bs) = (bs :: bytes)"
  by (induction bs) simp_all

lemma emit_Inr: "emit c (Inr cs) = Inr (c # cs)"
  by (simp add: emit_def)

lemma encode_decode_utf8: "encode_utf8 p = Inr bs \<Longrightarrow> decode_utf8 bs = Inr p"
proof (induction p arbitrary: bs)
  case Nil
  then show ?case by (simp add: decode_utf8_def)
next
  case (Cons c cs)
  from Cons.prems obtain x rest where x: "utf8_char c = Inr x"
    and rest: "encode_utf8 cs = Inr rest" and bs: "bs = map of_nat x @ rest"
    by (auto split: sum.splits)
  have "\<forall>n\<in>set x. n < 256" using utf8_char_octets [OF x] by blast
  then have "map unat bs = x @ map unat rest"
    unfolding bs by (simp only: map_append map_unat_of_nat)
  moreover have "decode_octets (map unat rest) = Inr cs"
    using Cons.IH [OF rest] by (simp add: decode_utf8_def)
  ultimately show ?case by (simp add: decode_utf8_def utf8_char_decode [OF x] emit_Inr)
qed

lemma encode_ascii: "\<forall>c\<in>set cs. c < 128 \<Longrightarrow> encode_utf8 cs = Inr (map of_nat cs)"
  by (induction cs) (simp_all add: utf8_char_def)

lemma decode_ascii: "\<forall>c\<in>set cs. c < 128 \<Longrightarrow> decode_octets cs = Inr cs"
  by (induction cs) (simp_all add: emit_def)

lemma table_b2a_cases:
  "table_b2a i \<in> {65..90} \<union> {97..122} \<union> {48..57} \<union> {43, 47}"
  by (simp add: table_b2a_def) arith

lemma table_a2b_b2a: "i < 64 \<Longrightarrow> table_a2b (table_b2a i) = Some i"
  by (simp add: table_b2a_def table_a2b_def) arith

lemma table_b2a_not_pad: "table_b2a i \<noteq> 61"
  by (simp add: table_b2a_def) arith

lemma a2b_step0:
  "i < 64 \<Longrightarrow> a2b_base64 0 l p out (table_b2a i # cs) = a2b_base64 1 i 0 out cs"
  by (simp add: table_a2b_b2a table_b2a_not_pad)

lemma a2b_step1:
  "i < 64 \<Longrightarrow> a2b_base64 1 l p out (table_b2a i # cs)
     = a2b_base64 2 (i mod 16) 0 (out @ [l * 4 + i div 16]) cs"
  by (simp add: table_a2b_b2a table_b2a_not_pad)

lemma a2b_step2:
  "i < 64 \<Longrightarrow> a2b_base64 2 l p out (table_b2a i # cs)
     = a2b_base64 3 (i mod 4) 0 (out @ [l * 16 + i div 4]) cs"
  by (simp add: table_a2b_b2a table_b2a_not_pad)

lemma a2b_step3:
  "i < 64 \<Longrightarrow> a2b_base64 3 l p out (table_b2a i # cs) = a2b_base64 0 0 0 (out @ [l * 64 + i]) cs"
  by (simp add: table_a2b_b2a table_b2a_not_pad)

lemma a2b_pad2: "a2b_base64 2 l 0 out [61, 61] = Inr out"
  by simp

lemma a2b_pad1: "a2b_base64 3 l 0 out [61] = Inr out"
  by simp

lemma a2b_end: "a2b_base64 0 l p out [] = Inr out"
  by simp

declare a2b_base64.simps [simp del]

lemma a2b_sextets3:
  assumes "s0 < 64" "s1 < 64" "s2 < 64"
  shows "a2b_base64 0 l p out (table_b2a s0 # table_b2a s1 # table_b2a s2 # cs)
         = a2b_base64 3 (s2 mod 4) 0 (out @ [s0 * 4 + s1 div 16, s1 mod 16 * 16 + s2 div 4]) cs"
  by (simp only: a2b_step0 [OF assms(1)] a2b_step1 [OF assms(2)] a2b_step2 [OF assms(3)]
        append_assoc append_Cons append_Nil)

lemma a2b_sextets2:
  assumes "s0 < 64" "s1 < 64"
  shows "a2b_base64 0 l p out (table_b2a s0 # table_b2a s1 # cs)
         = a2b_base64 2 (s1 mod 16) 0 (out @ [s0 * 4 + s1 div 16]) cs"
  by (simp only: a2b_step0 [OF assms(1)] a2b_step1 [OF assms(2)])

lemma a2b_sextets4:
  assumes "s0 < 64" "s1 < 64" "s2 < 64" "s3 < 64"
  shows "a2b_base64 0 l p out (table_b2a s0 # table_b2a s1 # table_b2a s2 # table_b2a s3 # cs)
         = a2b_base64 0 0 0
             (out @ [s0 * 4 + s1 div 16, s1 mod 16 * 16 + s2 div 4, s2 mod 4 * 64 + s3]) cs"
  by (simp only: a2b_sextets3 [OF assms(1,2,3)] a2b_step3 [OF assms(4)]
        append_assoc append_Cons append_Nil)

lemma sextet_bounds:
  assumes "a < 256" "b < 256" "c < (256::nat)"
  shows "a div 4 < 64" "a mod 4 * 16 + b div 16 < 64" "b mod 16 * 4 + c div 64 < 64"
    "c mod 64 < 64" "a mod 4 * 16 < 64" "b mod 16 * 4 < 64"
proof -
  have small: "b div 16 < 16" "c div 64 < 4" using assms by simp_all
  have rems: "a mod 4 < 4" "b mod 16 < 16" by simp_all
  show "a div 4 < 64" using assms by simp
  show "a mod 4 * 16 + b div 16 < 64" using small rems by linarith
  show "b mod 16 * 4 + c div 64 < 64" using small rems by linarith
  show "c mod 64 < 64" by simp
  show "a mod 4 * 16 < 64" using rems by linarith
  show "b mod 16 * 4 < 64" using rems by linarith
qed

lemma sextet_join:
  assumes "b < 256" "c < (256::nat)"
  shows "a div 4 * 4 + (a mod 4 * 16 + b div 16) div 16 = a"
    "(a mod 4 * 16 + b div 16) mod 16 * 16 + (b mod 16 * 4 + c div 64) div 4 = b"
    "(b mod 16 * 4 + c div 64) mod 4 * 64 + c mod 64 = c"
proof -
  have small: "b div 16 < 16" "c div 64 < 4" using assms by simp_all
  then have parts: "(a mod 4 * 16 + b div 16) div 16 = a mod 4"
    "(a mod 4 * 16 + b div 16) mod 16 = b div 16"
    "(b mod 16 * 4 + c div 64) div 4 = b mod 16"
    "(b mod 16 * 4 + c div 64) mod 4 = c div 64"
    by simp_all
  show "a div 4 * 4 + (a mod 4 * 16 + b div 16) div 16 = a"
    by (simp only: parts div_mult_mod_eq)
  show "(a mod 4 * 16 + b div 16) mod 16 * 16 + (b mod 16 * 4 + c div 64) div 4 = b"
    by (simp only: parts div_mult_mod_eq)
  show "(b mod 16 * 4 + c div 64) mod 4 * 64 + c mod 64 = c"
    by (simp only: parts div_mult_mod_eq)
qed

lemma a2b_quad:
  assumes "a < 256" "b < 256" "c < 256"
  shows "a2b_base64 0 l p out
           (table_b2a (a div 4) # table_b2a (a mod 4 * 16 + b div 16)
              # table_b2a (b mod 16 * 4 + c div 64) # table_b2a (c mod 64) # cs)
         = a2b_base64 0 0 0 (out @ [a, b, c]) cs"
  by (simp only: a2b_sextets4 [OF sextet_bounds(1,2,3,4) [OF assms]]
        sextet_join [OF assms(2,3)])

lemma a2b_b2a:
  "\<forall>n\<in>set ns. n < 256 \<Longrightarrow> a2b_base64 0 l p out (b2a_base64 ns) = Inr (out @ ns)"
proof (induction ns arbitrary: l p out rule: b2a_base64.induct)
  case (1 a b c r)
  then have abc: "a < 256" "b < 256" "c < 256" and r: "\<forall>n\<in>set r. n < 256" by simp_all
  show ?case
    by (simp only: b2a_base64.simps append_Cons append_Nil a2b_quad [OF abc] "1.IH" [OF r])
      simp
next
  case (2 a b)
  then have ab: "a < 256" "b < 256" by simp_all
  have z: "(0::nat) < 256" by simp
  have joins: "a div 4 * 4 + (a mod 4 * 16 + b div 16) div 16 = a"
    "(a mod 4 * 16 + b div 16) mod 16 * 16 + b mod 16 * 4 div 4 = b"
    using sextet_join(1,2) [OF ab(2) z, of a] by simp_all
  have "a2b_base64 0 l p out (b2a_base64 [a, b])
      = a2b_base64 3 (b mod 16 * 4 mod 4) 0 (out @ [a, b]) [61]"
    by (simp only: b2a_base64.simps
          a2b_sextets3 [OF sextet_bounds(1,2) [OF ab z] sextet_bounds(6) [OF ab z]] joins)
  then show ?case by (simp add: a2b_pad1)
next
  case (3 a)
  then have a: "a < 256" by simp
  have z: "(0::nat) < 256" by simp
  have joins: "a div 4 * 4 + a mod 4 * 16 div 16 = a"
    using sextet_join(1) [OF z z, of a] by simp
  have "a2b_base64 0 l p out (b2a_base64 [a])
      = a2b_base64 2 (a mod 4 * 16 mod 16) 0 (out @ [a]) [61, 61]"
    by (simp only: b2a_base64.simps
          a2b_sextets2 [OF sextet_bounds(1) [OF a z z] sextet_bounds(5) [OF a z z]] joins)
  then show ?case by (simp add: a2b_pad2)
next
  case 4
  then show ?case by (simp add: a2b_end)
qed

lemma utf8_char_total:
  "c < 0x110000 \<Longrightarrow> \<not> (0xD800 \<le> c \<and> c \<le> 0xDFFF) \<Longrightarrow> \<exists>bs. utf8_char c = Inr bs"
  by (simp add: utf8_char_def)

lemma encodable_encode: "encodable t \<Longrightarrow> \<exists>bs. encode_utf8 t = Inr bs"
proof (induction t)
  case Nil
  then show ?case by simp
next
  case (Cons c cs)
  then obtain bs rest where "utf8_char c = Inr bs" "encode_utf8 cs = Inr rest"
    using utf8_char_total [of c] by (auto simp: encodable_def)
  then show ?case by simp
qed

lemma table_b2a_ascii: "table_b2a i < 128" "table_b2a i \<noteq> 45" "table_b2a i \<noteq> 95"
  using table_b2a_cases [of i] by auto

lemma b2a_base64_ascii:
  "x \<in> set (b2a_base64 ns) \<Longrightarrow> x < 128 \<and> x \<noteq> 45 \<and> x \<noteq> 95"
  by (induction ns rule: b2a_base64.induct) (auto simp: table_b2a_ascii)

lemma translation_ascii: "x < 128 \<Longrightarrow> urlsafe_encode_translation x < 128"
  by (simp add: urlsafe_encode_translation_def)

lemma translation_inverse:
  "x \<noteq> 45 \<Longrightarrow> x \<noteq> 95 \<Longrightarrow> urlsafe_decode_translation (urlsafe_encode_translation x) = x"
  by (simp add: urlsafe_encode_translation_def urlsafe_decode_translation_def)

lemma b64_text_ascii: "c \<in> set (b64_text s) \<Longrightarrow> c < 128"
  using b2a_base64_ascii translation_ascii by (auto simp: b64_text_def)

lemma urlsafe_b64encode_text: "urlsafe_b64encode s = map of_nat (b64_text s)"
  by (simp add: urlsafe_b64encode_def b64_text_def)

lemma decode_b64: "decode_utf8 (urlsafe_b64encode s) = Inr (b64_text s)"
proof -
  have small: "\<forall>c\<in>set (b64_text s). c < 256" using b64_text_ascii by fastforce
  have "decode_utf8 (urlsafe_b64encode s) = decode_octets (b64_text s)"
    unfolding decode_utf8_def urlsafe_b64encode_text by (simp only: map_unat_of_nat [OF small])
  then show ?thesis using decode_ascii [of "b64_text s"] b64_text_ascii by simp
qed

lemma encode_b64: "encode_utf8 (b64_text s) = Inr (map of_nat (b64_text s))"
  using encode_ascii [of "b64_text s"] b64_text_ascii by simp

lemma unat_octet: "unat (b :: byte) < 256"
  using unsigned_less [of b, where 'a = nat] by simp

lemma urlsafe_b64decode_text: "urlsafe_b64decode (map of_nat (b64_text s)) = Inr s"
proof -
  have small: "\<forall>c\<in>set (b64_text s). c < 256" using b64_text_ascii by fastforce
  have "map (\<lambda>b. urlsafe_decode_translation (unat b)) (map of_nat (b64_text s) :: bytes)
      = map urlsafe_decode_translation (map unat (map of_nat (b64_text s) :: bytes))"
    by simp
  also have "\<dots> = map urlsafe_decode_translation (b64_text s)"
    by (simp only: map_unat_of_nat [OF small])
  also have "\<dots> = b2a_base64 (map unat s)"
    unfolding b64_text_def using b2a_base64_ascii [of _ "map unat s"]
    by (simp add: translation_inverse map_idI)
  finally have "urlsafe_b64decode (map of_nat (b64_text s))
      = (case a2b_base64 0 0 0 [] (b2a_base64 (map unat s)) of
           Inl e \<Rightarrow> Inl e | Inr out \<Rightarrow> Inr (map of_nat out))"
    by (simp only: urlsafe_b64decode_def)
  moreover have "a2b_base64 0 0 0 [] (b2a_base64 (map unat s)) = Inr (map unat s)"
    using a2b_b2a [of "map unat s" 0 0 "[]"] unat_octet by simp
  ultimately show ?thesis by (simp add: map_of_nat_unat del: map_map)
qed

lemma xor_twice:
  "map (\<lambda>(i, b). b XOR key ! (i mod m))
     (enumerate n (map (\<lambda>(i, b). b XOR key ! (i mod m)) (enumerate n data))) = (data :: bytes)"
  by (induction data arbitrary: n) (simp_all add: xor.assoc)

lemma xor_with_key_involution:
  "key \<noteq> [] \<Longrightarrow> xor_with_key key data = Inr e \<Longrightarrow> xor_with_key key e = Inr data"
  by (auto simp: xor_with_key_def xor_twice)

lemma xor_with_key_total: "key \<noteq> [] \<Longrightarrow> \<exists>e. xor_with_key key data = Inr e \<and> length e = length data"
  by (simp add: xor_with_key_def)

section \<open>Encryption and decryption\<close>

lemma div3_step: "(5 + n) div 3 = Suc (Suc (Suc n) div 3)"
  by presburger

lemma b2a_base64_length: "length (b2a_base64 ns) = 4 * ((length ns + 2) div 3)"
  by (induction ns rule: b2a_base64.induct) (simp_all add: div3_step)

lemma b64_text_length: "length (b64_text s) = 4 * ((length s + 2) div 3)"
  by (simp add: b64_text_def b2a_base64_length)

lemma b2a_base64_pads: "count_list (b2a_base64 ns) 61 = (3 - length ns mod 3) mod 3"
  by (induction ns rule: b2a_base64.induct) (simp_all add: table_b2a_not_pad)

lemma translation_pad: "urlsafe_encode_translation x = 61 \<longleftrightarrow> x = 61"
  by (simp add: urlsafe_encode_translation_def)

lemma count_list_map_pad:
  "count_list (map urlsafe_encode_translation xs) 61 = count_list xs 61"
  by (induction xs) (simp_all add: translation_pad)

lemma b64_text_pads: "count_list (b64_text s) 61 = (3 - length s mod 3) mod 3"
  by (simp add: b64_text_def count_list_map_pad b2a_base64_pads)

lemma length_from_b64: "3 * (4 * (((n::nat) + 2) div 3) div 4) - (3 - n mod 3) mod 3 = n"
proof -
  have "n = 3 * (n div 3) + n mod 3" by simp
  moreover have "n mod 3 = 0 \<or> n mod 3 = 1 \<or> n mod 3 = 2" by linarith
  moreover have "(n + 2) div 3 = (if n mod 3 = 0 then n div 3 else n div 3 + 1)"
    by presburger
  ultimately show ?thesis by auto
qed

lemma encrypt_password_eq:
  assumes "encode_utf8 s = Inr sb" and "encode_utf8 p = Inr data"
  shows "\<exists>e. xor_with_key (sha256 sb) data = Inr e \<and> length e = length data
            \<and> encrypt_password p s = Inr (b64_text e)"
proof -
  have key: "sha256 sb \<noteq> []" using sha256_length [of sb] by auto
  from xor_with_key_total [OF key, of data] obtain e
    where e: "xor_with_key (sha256 sb) data = Inr e" "length e = length data" by blast
  then show ?thesis using assms
    by (simp add: encrypt_password_def derive_xor_key_def decode_b64)
qed

lemma decrypt_b64_text:
  assumes "encode_utf8 s = Inr sb" and "xor_with_key (sha256 sb) e = Inr d"
  shows "decrypt_password (b64_text e) s = decode_utf8 d"
  using assms
  by (simp add: decrypt_password_def derive_xor_key_def encode_b64 urlsafe_b64decode_text)

lemma encrypt_then_decrypt:
  assumes "encode_utf8 s = Inr sb" and "encode_utf8 p = Inr data"
  shows "\<exists>c. encrypt_password p s = Inr c \<and> decrypt_password c s = Inr p"
proof -
  from encrypt_password_eq [OF assms] obtain e
    where e: "xor_with_key (sha256 sb) data = Inr e" "encrypt_password p s = Inr (b64_text e)"
    by blast
  have key: "sha256 sb \<noteq> []" using sha256_length [of sb] by auto
  have "xor_with_key (sha256 sb) e = Inr data" by (rule xor_with_key_involution [OF key e(1)])
  then have "decrypt_password (b64_text e) s = Inr p"
    using decrypt_b64_text [OF assms(1)] encode_decode_utf8 [OF assms(2)] by simp
  then show ?thesis using e(2) by blast
qed

lemma of_char_octet: "(of_char c :: nat) < 256"
  using mod_less_divisor [of 256 "of_char c :: nat"] by simp

lemma lit_octets: "c \<in> set (lit s) \<Longrightarrow> c < 256"
  using of_char_octet by (auto simp: lit_def)

lemma encodable_lit: "encodable (lit s)"
  using lit_octets [of _ s] by (fastforce simp: encodable_def)

text \<open>
  Claim C1. For every plaintext \<open>p\<close> and every secret \<open>s\<close> that are UTF-8 text
  (sequences of Unicode scalar values, printable or not), \<open>encrypt_password p s\<close>
  returns a ciphertext, and \<open>decrypt_password\<close> of that ciphertext under the same
  secret returns \<open>p\<close>: the SHA-256 key, the repeating XOR and the URL-safe base64
  coding are inverted exactly.
\<close>

theorem encrypt_decrypt_roundtrip:
  assumes "encodable p" and "encodable s"
  shows "\<exists>c. encrypt_password p s = Inr c \<and> decrypt_password c s = Inr p"
proof -
  from assms obtain sb data where "encode_utf8 s = Inr sb" and "encode_utf8 p = Inr data"
    using encodable_encode by blast
  then show ?thesis by (rule encrypt_then_decrypt)
qed

theorem encrypt_decrypt_roundtrip_witness:
  "\<exists>c. encrypt_password (lit ''hunter2'') (lit ''1234'') = Inr c
       \<and> decrypt_password c (lit ''1234'') = Inr (lit ''hunter2'')"
  using encrypt_decrypt_roundtrip [of "lit ''hunter2''" "lit ''1234''"]
  by (simp add: encodable_lit)
section \<open>Entries\<close>

lemma lit_eq_iff: "lit a = lit b \<longleftrightarrow> a = b"
  by (simp add: lit_def inj_map_eq_map inj_on_def)

lemma map_of_setitem: "map_of (setitem k v d) k' = (if k' = k then Some v else map_of d k')"
  by (simp add: setitem_def update_conv')

lemma build_entry_same: "build_entry now s u p a = Inr e \<Longrightarrow> same_password a e"
  by (auto simp: build_entry_def same_password_def lit_eq_iff split: sum.splits)

lemma edit_entry_fields_same:
  assumes "same_password a e" "edit_entry_fields now a ns nu np e = Inr e'"
  shows "same_password a e'"
proof (cases "np = []")
  case True
  then have "e' = setitem (lit ''updated_at'') (JStr now)
      (if nu \<noteq> [] then setitem (lit ''username'') (JStr nu)
         (if ns \<noteq> [] then setitem (lit ''site'') (JStr ns) e else e)
       else (if ns \<noteq> [] then setitem (lit ''site'') (JStr ns) e else e))"
    using assms(2) by (simp add: edit_entry_fields_def Let_def)
  then have "map_of e' (lit ''password_hash'') = map_of e (lit ''password_hash'')"
    "map_of e' (lit ''password_encrypted'') = map_of e (lit ''password_encrypted'')"
    by (simp_all add: map_of_setitem lit_eq_iff)
  then show ?thesis using assms(1) by (simp add: same_password_def)
next
  case False
  then obtain h c where "hash_text np = Inr h" "encrypt_password np a = Inr c"
    and "map_of e' (lit ''password_hash'') = Some (JStr h)"
    and "map_of e' (lit ''password_encrypted'') = Some (JStr c)"
    using assms(2)
    by (auto simp: edit_entry_fields_def Let_def map_of_setitem lit_eq_iff split: sum.splits)
  then show ?thesis unfolding same_password_def by blast
qed

lemma Entry_build_same: "Entry_build now s u p a = Inr e \<Longrightarrow> same_password_Entry a e"
  by (auto simp: Entry_build_def same_password_Entry_def split: sum.splits)

lemma update_password_same: "update_password now p a e = Inr e' \<Longrightarrow> same_password_Entry a e'"
  by (auto simp: update_password_def same_password_Entry_def split: sum.splits)

lemma update_login_same:
  "same_password_Entry a e \<Longrightarrow> same_password_Entry a (update_login now s u e)"
  by (simp add: update_login_def same_password_Entry_def Let_def split: option.splits)

lemma reload_same:
  "same_password_Entry a e \<Longrightarrow> same_password_Entry a (from_dict repr n1 n2 (to_dict e))"
  by (simp add: from_dict_def to_dict_def same_password_Entry_def get_def py_str_def lit_eq_iff)

lemma hash_text_total: "encodable p \<Longrightarrow> \<exists>h. hash_text p = Inr h"
  using encodable_encode [of p] by (auto simp: hash_text_def)

lemma encrypt_password_total:
  "encodable p \<Longrightarrow> encodable s \<Longrightarrow> \<exists>c. encrypt_password p s = Inr c"
  using encodable_encode [of p] encodable_encode [of s] encrypt_password_eq by blast

lemma build_entry_total:
  assumes "encodable p" "encodable a"
  shows "\<exists>h c. hash_text p = Inr h \<and> encrypt_password p a = Inr c
     \<and> build_entry now s u p a =
         Inr [(lit ''site'', JStr (strip s)), (lit ''username'', JStr (strip u)),
              (lit ''password_hash'', JStr h), (lit ''password_encrypted'', JStr c),
              (lit ''created_at'', JStr now), (lit ''updated_at'', JStr now)]"
  using hash_text_total [OF assms(1)] encrypt_password_total [OF assms]
  by (auto simp: build_entry_def)

lemma Entry_build_total:
  assumes "encodable p" "encodable a"
  shows "\<exists>h c. hash_text p = Inr h \<and> encrypt_password p a = Inr c
     \<and> Entry_build now s u p a =
         Inr \<lparr>site = strip s, username = strip u, password_hash = h,
              password_encrypted = c, created_at = now, updated_at = now\<rparr>"
  using hash_text_total [OF assms(1)] encrypt_password_total [OF assms]
  by (auto simp: Entry_build_def)


text \<open>
  Claim C7. Every entry that the operations can produce during a session (built by
  \<open>build_entry\<close> or \<open>Entry.build\<close>, then changed by \<open>edit_entry\<close>,
  \<open>update_password\<close> and \<open>update_login\<close> and reloaded, any number of times) has
  a single plaintext \<open>p\<close> with \<open>password_hash = hash_text p\<close> and
  \<open>password_encrypted = encrypt_password p secret\<close>: no operation assigns one of the
  two fields without the other.
\<close>

theorem password_fields_agree:
  "(reachable admin_password d \<longrightarrow> same_password admin_password d)
   \<and> (reachable_Entry admin_password e \<longrightarrow> same_password_Entry admin_password e)"
proof
  show "reachable admin_password d \<longrightarrow> same_password admin_password d"
  proof
    assume "reachable admin_password d"
    then show "same_password admin_password d"
      by (induction rule: reachable.induct) (auto intro: build_entry_same edit_entry_fields_same)
  qed
  show "reachable_Entry admin_password e \<longrightarrow> same_password_Entry admin_password e"
  proof
    assume "reachable_Entry admin_password e"
    then show "same_password_Entry admin_password e"
      by (induction rule: reachable_Entry.induct)
        (auto intro: Entry_build_same update_password_same update_login_same reload_same)
  qed
qed

lemma Inr_projr: "\<exists>x. r = Inr x \<Longrightarrow> r = Inr (projr r)"
  by auto

theorem password_fields_agree_witness:
  "reachable (lit ''1234'')
     (projr (build_entry (sample_clock 0) (lit ''example.org'') (lit ''ana'') (lit ''a'') (lit ''1234'')))
   \<and> same_password (lit ''1234'')
     (projr (build_entry (sample_clock 0) (lit ''example.org'') (lit ''ana'') (lit ''a'') (lit ''1234'')))
   \<and> reachable_Entry (lit ''1234'')
     (update_login (sample_clock 1) (Some (lit '' example.com '')) None
        (projr (Entry_build (sample_clock 0) (lit ''example.org'') (lit ''ana'') (lit ''a'') (lit ''1234''))))
   \<and> same_password_Entry (lit ''1234'')
     (update_login (sample_clock 1) (Some (lit '' example.com '')) None
        (projr (Entry_build (sample_clock 0) (lit ''example.org'') (lit ''ana'') (lit ''a'') (lit ''1234''))))"
proof -
  let ?d = "build_entry (sample_clock 0) (lit ''example.org'') (lit ''ana'') (lit ''a'') (lit ''1234'')"
  let ?e = "Entry_build (sample_clock 0) (lit ''example.org'') (lit ''ana'') (lit ''a'') (lit ''1234'')"
  have "?d = Inr (projr ?d)"
    using build_entry_total [OF encodable_lit encodable_lit] by (intro Inr_projr) blast
  then have d: "reachable (lit ''1234'') (projr ?d)" by (rule reachable.built)
  have "?e = Inr (projr ?e)"
    using Entry_build_total [OF encodable_lit encodable_lit] by (intro Inr_projr) blast
  then have "reachable_Entry (lit ''1234'') (projr ?e)" by (rule reachable_Entry.built)
  then have e: "reachable_Entry (lit ''1234'')
      (update_login (sample_clock 1) (Some (lit '' example.com '')) None (projr ?e))"
    by (rule reachable_Entry.login_updated)
  show ?thesis
    using d e password_fields_agree [of "lit ''1234''" "projr ?d"
        "update_login (sample_clock 1) (Some (lit '' example.com '')) None (projr ?e)"]
    by blast
qed

text \<open>
  Claim C5, as amended. \<open>update_login\<close> replaces the fields given by their trimmed
  values and assigns \<open>updated_at\<close> in every call, also when neither field is given:
  then every field but \<open>updated_at\<close> is unchanged. The same holds for the assignments
  of \<open>edit_entry\<close> in \<open>src/codline.py\<close> when the three answers are blank.
\<close>

theorem update_identity_frame:
  "password_hash (update_login now site' username' e) = password_hash e
   \<and> password_encrypted (update_login now site' username' e) = password_encrypted e
   \<and> created_at (update_login now site' username' e) = created_at e
   \<and> updated_at (update_login now site' username' e) = now
   \<and> site (update_login now site' username' e)
       = (case site' of None \<Rightarrow> site e | Some s \<Rightarrow> strip s)
   \<and> username (update_login now site' username' e)
       = (case username' of None \<Rightarrow> username e | Some u \<Rightarrow> strip u)
   \<and> update_login now None None e = e\<lparr>updated_at := now\<rparr>
   \<and> edit_entry_fields now admin_password [] [] [] d
       = Inr (setitem (lit ''updated_at'') (JStr now) d)"
  by (simp add: update_login_def edit_entry_fields_def Let_def split: option.splits)

text \<open>
  The claim as stated fails: with neither field given, \<open>updated_at\<close> changes.
\<close>

theorem update_identity_not_noop:
  "updated_at (update_login (sample_clock 1) None None sample_Entry) = sample_clock 1
   \<and> updated_at sample_Entry = sample_clock 0
   \<and> sample_clock 1 \<noteq> sample_clock 0
   \<and> map_sum id (\<lambda>e. map_of e (lit ''updated_at''))
        (edit_entry_fields (sample_clock 1) (lit ''1234'') [] [] [] sample_entry)
       = Inr (Some (JStr (sample_clock 1)))
   \<and> map_of sample_entry (lit ''updated_at'') = Some (JStr (sample_clock 0))"
  by (simp add: update_login_def sample_Entry_def sample_clock_def sample_entry_def
        edit_entry_fields_def to_dict_def map_of_setitem lit_eq_iff)

section \<open>Loading the store\<close>

text \<open>
  Claim C3, as amended. \<open>load_entries\<close> returns the empty list when the file does not
  exist, and reports the error and returns the empty list when the file is not
  well-formed JSON. A JSON list gives its records. A well-formed JSON value that is not
  a list is not recovered: \<open>src/codline.py\<close> raises \<open>ValueError\<close> for it, and
  \<open>src/Visual/codline.py\<close> raises \<open>TypeError\<close> for a number, a truth value and
  \<open>null\<close>.
\<close>

theorem load_entries_outcomes:
  "load_entries (w\<lparr>data_file := None\<rparr>) = (Inr [], w\<lparr>data_file := None\<rparr>)
   \<and> load_entries (w\<lparr>data_file := Some NotJson\<rparr>)
       = (Inr [], w\<lparr>data_file := Some NotJson, stdout := stdout w @ [ReadError, ExceptionText]\<rparr>)
   \<and> load_entries (w\<lparr>data_file := Some (Json (JList xs))\<rparr>)
       = (Inr (dicts xs), w\<lparr>data_file := Some (Json (JList xs))\<rparr>)
   \<and> fst (load_entries (w\<lparr>data_file := Some (Json (JDict kvs))\<rparr>)) = Inl ValueError
   \<and> fst (load_entries (w\<lparr>data_file := Some (Json (JStr s))\<rparr>)) = Inl ValueError
   \<and> fst (load_entries (w\<lparr>data_file := Some (Json (JInt i))\<rparr>)) = Inl ValueError
   \<and> fst (load_entries (w\<lparr>data_file := Some (Json (JFloat f))\<rparr>)) = Inl ValueError
   \<and> fst (load_entries (w\<lparr>data_file := Some (Json (JBool b))\<rparr>)) = Inl ValueError
   \<and> fst (load_entries (w\<lparr>data_file := Some (Json JNull)\<rparr>)) = Inl ValueError
   \<and> visual_load_entries repr (w\<lparr>data_file := None\<rparr>) = (Inr [], w\<lparr>data_file := None\<rparr>)
   \<and> visual_load_entries repr (w\<lparr>data_file := Some NotJson\<rparr>)
       = (Inr [], w\<lparr>data_file := Some NotJson, stdout := stdout w @ [ReadError, ExceptionText]\<rparr>)
   \<and> map_sum id length (fst (visual_load_entries repr (w\<lparr>data_file := Some (Json (JList xs))\<rparr>)))
       = Inr (length (dicts xs))
   \<and> fst (visual_load_entries repr (w\<lparr>data_file := Some (Json (JInt i))\<rparr>)) = Inl TypeError
   \<and> fst (visual_load_entries repr (w\<lparr>data_file := Some (Json (JFloat f))\<rparr>)) = Inl TypeError
   \<and> fst (visual_load_entries repr (w\<lparr>data_file := Some (Json (JBool b))\<rparr>)) = Inl TypeError
   \<and> fst (visual_load_entries repr (w\<lparr>data_file := Some (Json JNull)\<rparr>)) = Inl TypeError"
  by (simp add: load_entries_def visual_load_entries_def iterate_def)

text \<open>
  The claim as stated fails: a store file that holds the JSON object \<open>{}\<close> makes
  \<open>load_entries\<close> raise to its caller.
\<close>

theorem load_entries_object_raises:
  "fst (load_entries (sample_world\<lparr>data_file := Some (Json (JDict []))\<rparr>)) = Inl ValueError"
  by (simp add: load_entries_def)

section \<open>Adding an entry\<close>

lemmas io_defs = io_bind_def io_return_def lift_def py_print_def input_def pause_def utcnow_def

lemma add_entry_invalid:
  assumes "stdin w = l1 # l2 # password # l4 # rest"
    and "strip l1 = [] \<or> strip l2 = [] \<or> password = []"
  shows "add_entry a w = (Inr (), w\<lparr>stdin := rest, stdout := stdout w @ [FieldsRequired]\<rparr>)"
  using assms by (auto simp: add_entry_def io_defs)

lemma visual_add_entry_invalid:
  assumes "stdin w = l1 # l2 # password # l4 # rest"
    and "strip l1 = [] \<or> strip l2 = [] \<or> password = []"
  shows "visual_add_entry entries a w
           = (Inr (), w\<lparr>stdin := rest, stdout := stdout w @ [FieldsRequired]\<rparr>)"
  using assms by (auto simp: visual_add_entry_def io_defs)

lemma add_entry_valid:
  assumes "stdin w = l1 # l2 # password # l4 # rest"
    and "strip l1 \<noteq> []" "strip l2 \<noteq> []" "password \<noteq> []"
    and "data_file w = Some (Json (JList xs))"
    and "build_entry (clock w (ticks w)) (strip l1) (strip l2) password a = Inr e"
  shows "add_entry a w
           = (Inr (), w\<lparr>stdin := rest, stdout := stdout w @ [Stored], ticks := Suc (ticks w),
                         data_file := Some (Json (JList (map JDict (dicts xs @ [e]))))\<rparr>)"
  using assms by (simp add: add_entry_def io_defs load_entries_def save_entries_def)

lemma visual_add_entry_valid:
  assumes "stdin w = l1 # l2 # password # l4 # rest"
    and "strip l1 \<noteq> []" "strip l2 \<noteq> []" "password \<noteq> []"
    and "Entry_build (clock w (ticks w)) (strip l1) (strip l2) password a = Inr e"
  shows "visual_add_entry entries a w
           = (Inr (), w\<lparr>stdin := rest, stdout := stdout w @ [Stored], ticks := Suc (ticks w),
                 data_file := Some (Json (JList (map (\<lambda>e. JDict (to_dict e)) (entries @ [e]))))\<rparr>)"
  using assms by (simp add: visual_add_entry_def io_defs visual_save_entries_def)

lemma dropWhile_snoc: "\<not> P y \<Longrightarrow> \<exists>zs. dropWhile P (xs @ [y]) = zs @ [y]"
  by (induction xs) auto

lemma strip_strip: "strip (strip s) = strip s"
proof (cases "dropWhile isspace s")
  case Nil
  show ?thesis unfolding strip_def Nil by simp
next
  case (Cons y ys)
  then have y: "\<not> isspace y" using hd_dropWhile [of isspace s] by simp
  from dropWhile_snoc [of isspace y "rev ys"] y obtain zs
    where zs: "dropWhile isspace (rev ys @ [y]) = zs @ [y]" by blast
  have s: "strip s = y # rev zs" by (simp add: strip_def Cons zs)
  have "dropWhile isspace (zs @ [y]) = zs @ [y]"
    using dropWhile_idem [of isspace "rev ys @ [y]"] by (simp only: zs)
  then show ?thesis unfolding s by (simp add: strip_def y)
qed

lemma build_entry_strip:
  "build_entry now (strip s) (strip u) p a = build_entry now s u p a"
  by (simp only: build_entry_def strip_strip)

lemma Entry_build_strip:
  "Entry_build now (strip s) (strip u) p a = Entry_build now s u p a"
  by (simp only: Entry_build_def strip_strip)

text \<open>
  Claim C6, as amended. \<open>build_entry\<close> and \<open>Entry.build\<close> trim site and username
  and, for a password and a secret that are UTF-8 text, always return an entry with
  \<open>password_hash = hash_text password\<close>,
  \<open>password_encrypted = encrypt_password password secret\<close> and both timestamps equal
  to the reading of the clock; they do not check for empty fields. The check is made by
  \<open>add_entry\<close>, before the entry is built: when the trimmed site, the trimmed username
  or the password is empty, it reports the error and writes nothing; otherwise it saves
  the loaded entries followed by the entry built from the answers.
\<close>

theorem create_and_add:
  "(encodable password \<and> encodable admin_password \<longrightarrow>
      (\<exists>h c. hash_text password = Inr h \<and> encrypt_password password admin_password = Inr c
         \<and> build_entry now site' username' password admin_password =
             Inr [(lit ''site'', JStr (strip site')), (lit ''username'', JStr (strip username')),
                  (lit ''password_hash'', JStr h), (lit ''password_encrypted'', JStr c),
                  (lit ''created_at'', JStr now), (lit ''updated_at'', JStr now)]
         \<and> Entry_build now site' username' password admin_password =
             Inr \<lparr>site = strip site', username = strip username', password_hash = h,
                  password_encrypted = c, created_at = now, updated_at = now\<rparr>))
   \<and> (stdin w = l1 # l2 # password # l4 # rest
        \<and> (strip l1 = [] \<or> strip l2 = [] \<or> password = []) \<longrightarrow>
      add_entry admin_password w
        = (Inr (), w\<lparr>stdin := rest, stdout := stdout w @ [FieldsRequired]\<rparr>)
      \<and> visual_add_entry entries admin_password w
        = (Inr (), w\<lparr>stdin := rest, stdout := stdout w @ [FieldsRequired]\<rparr>))
   \<and> (stdin w = l1 # l2 # password # l4 # rest
        \<and> strip l1 \<noteq> [] \<and> strip l2 \<noteq> [] \<and> password \<noteq> []
        \<and> encodable password \<and> encodable admin_password
        \<and> data_file w = Some (Json (JList xs)) \<longrightarrow>
      (\<exists>d e. build_entry (clock w (ticks w)) l1 l2 password admin_password = Inr d
         \<and> Entry_build (clock w (ticks w)) l1 l2 password admin_password = Inr e
         \<and> add_entry admin_password w
             = (Inr (), w\<lparr>stdin := rest, stdout := stdout w @ [Stored], ticks := Suc (ticks w),
                   data_file := Some (Json (JList (map JDict (dicts xs @ [d]))))\<rparr>)
         \<and> visual_add_entry entries admin_password w
             = (Inr (), w\<lparr>stdin := rest, stdout := stdout w @ [Stored], ticks := Suc (ticks w),
                   data_file :=
                     Some (Json (JList (map (\<lambda>e. JDict (to_dict e)) (entries @ [e]))))\<rparr>)))"
proof (intro conjI impI)
  assume "encodable password \<and> encodable admin_password"
  then have p: "encodable password" and a: "encodable admin_password" by simp_all
  from hash_text_total [OF p] encrypt_password_total [OF p a]
  obtain h c where "hash_text password = Inr h" "encrypt_password password admin_password = Inr c"
    by blast
  then show "\<exists>h c. hash_text password = Inr h \<and> encrypt_password password admin_password = Inr c
         \<and> build_entry now site' username' password admin_password =
             Inr [(lit ''site'', JStr (strip site')), (lit ''username'', JStr (strip username')),
                  (lit ''password_hash'', JStr h), (lit ''password_encrypted'', JStr c),
                  (lit ''created_at'', JStr now), (lit ''updated_at'', JStr now)]
         \<and> Entry_build now site' username' password admin_password =
             Inr \<lparr>site = strip site', username = strip username', password_hash = h,
                  password_encrypted = c, created_at = now, updated_at = now\<rparr>"
    by (simp add: build_entry_def Entry_build_def)
next
  assume h: "stdin w = l1 # l2 # password # l4 # rest
        \<and> (strip l1 = [] \<or> strip l2 = [] \<or> password = [])"
  then show "add_entry admin_password w
        = (Inr (), w\<lparr>stdin := rest, stdout := stdout w @ [FieldsRequired]\<rparr>)"
    using add_entry_invalid [of w l1 l2 password l4 rest admin_password] by blast
  from h show "visual_add_entry entries admin_password w
        = (Inr (), w\<lparr>stdin := rest, stdout := stdout w @ [FieldsRequired]\<rparr>)"
    using visual_add_entry_invalid [of w l1 l2 password l4 rest entries admin_password] by blast
next
  assume h: "stdin w = l1 # l2 # password # l4 # rest
        \<and> strip l1 \<noteq> [] \<and> strip l2 \<noteq> [] \<and> password \<noteq> []
        \<and> encodable password \<and> encodable admin_password
        \<and> data_file w = Some (Json (JList xs))"
  then have p: "encodable password" and a: "encodable admin_password" by simp_all
  from build_entry_total [OF p a, of "clock w (ticks w)" l1 l2] obtain d
    where d: "build_entry (clock w (ticks w)) l1 l2 password admin_password = Inr d" by blast
  from Entry_build_total [OF p a, of "clock w (ticks w)" l1 l2] obtain e
    where e: "Entry_build (clock w (ticks w)) l1 l2 password admin_password = Inr e" by blast
  have "add_entry admin_password w
             = (Inr (), w\<lparr>stdin := rest, stdout := stdout w @ [Stored], ticks := Suc (ticks w),
                   data_file := Some (Json (JList (map JDict (dicts xs @ [d]))))\<rparr>)"
    using h d add_entry_valid [of w l1 l2 password l4 rest xs admin_password d]
    by (simp add: build_entry_strip)
  moreover have "visual_add_entry entries admin_password w
             = (Inr (), w\<lparr>stdin := rest, stdout := stdout w @ [Stored], ticks := Suc (ticks w),
                   data_file :=
                     Some (Json (JList (map (\<lambda>e. JDict (to_dict e)) (entries @ [e]))))\<rparr>)"
    using h e visual_add_entry_valid [of w l1 l2 password l4 rest admin_password e entries]
    by (simp add: Entry_build_strip)
  ultimately show "\<exists>d e. build_entry (clock w (ticks w)) l1 l2 password admin_password = Inr d
         \<and> Entry_build (clock w (ticks w)) l1 l2 password admin_password = Inr e
         \<and> add_entry admin_password w
             = (Inr (), w\<lparr>stdin := rest, stdout := stdout w @ [Stored], ticks := Suc (ticks w),
                   data_file := Some (Json (JList (map JDict (dicts xs @ [d]))))\<rparr>)
         \<and> visual_add_entry entries admin_password w
             = (Inr (), w\<lparr>stdin := rest, stdout := stdout w @ [Stored], ticks := Suc (ticks w),
                   data_file :=
                     Some (Json (JList (map (\<lambda>e. JDict (to_dict e)) (entries @ [e]))))\<rparr>)"
    using d e by blast
qed

lemma strip_Nil: "strip [] = []"
  by (simp add: strip_def)

theorem create_and_add_witness:
  "(\<exists>h c. hash_text (lit ''a'') = Inr h \<and> encrypt_password (lit ''a'') (lit ''1234'') = Inr c
      \<and> build_entry (sample_clock 0) (lit '' example.org '') (lit ''ana'') (lit ''a'') (lit ''1234'') =
          Inr [(lit ''site'', JStr (lit ''example.org'')), (lit ''username'', JStr (lit ''ana'')),
               (lit ''password_hash'', JStr h), (lit ''password_encrypted'', JStr c),
               (lit ''created_at'', JStr (sample_clock 0)),
               (lit ''updated_at'', JStr (sample_clock 0))])
   \<and> add_entry (lit ''1234'')
         (sample_world\<lparr>stdin := [lit ''  '', lit ''ana'', lit ''a'', [], lit ''next'']\<rparr>)
       = (Inr (), sample_world\<lparr>stdin := [lit ''next''], stdout := [FieldsRequired]\<rparr>)
   \<and> (\<exists>d. build_entry (sample_clock 0) (lit '' example.org '') (lit ''ana'') (lit ''a'') (lit ''1234'')
             = Inr d
        \<and> add_entry (lit ''1234'')
             (sample_world\<lparr>data_file := Some (Json (JList [])),
                stdin := [lit '' example.org '', lit ''ana'', lit ''a'', [], lit ''next'']\<rparr>)
           = (Inr (), sample_world\<lparr>data_file := Some (Json (JList [JDict d])),
                stdin := [lit ''next''], stdout := [Stored], ticks := 1\<rparr>))"
proof -
  have s1: "strip (lit ''  '') = []" by (simp add: strip_def lit_def isspace_def)
  have s2: "strip (lit '' example.org '') = lit ''example.org''"
    by (simp add: strip_def lit_def isspace_def)
  have s3: "strip (lit ''ana'') = lit ''ana''" by (simp add: strip_def lit_def isspace_def)
  have n: "lit ''example.org'' \<noteq> []" "lit ''ana'' \<noteq> []" "lit ''a'' \<noteq> []"
    by (simp_all add: lit_def)
  show ?thesis
    using create_and_add [where password = "lit ''a''" and admin_password = "lit ''1234''"
        and now = "sample_clock 0" and site' = "lit '' example.org ''" and username' = "lit ''ana''"
        and w = "sample_world\<lparr>stdin := [lit ''  '', lit ''ana'', lit ''a'', [], lit ''next'']\<rparr>"
        and ?l1.0 = "lit ''  ''" and ?l2.0 = "lit ''ana''" and ?l4.0 = "[]"
        and rest = "[lit ''next'']" and entries = "[]" and xs = "[]"]
      create_and_add [where password = "lit ''a''" and admin_password = "lit ''1234''"
        and now = "sample_clock 0" and site' = "lit '' example.org ''" and username' = "lit ''ana''"
        and w = "sample_world\<lparr>data_file := Some (Json (JList [])),
                stdin := [lit '' example.org '', lit ''ana'', lit ''a'', [], lit ''next'']\<rparr>"
        and ?l1.0 = "lit '' example.org ''" and ?l2.0 = "lit ''ana''" and ?l4.0 = "[]"
        and rest = "[lit ''next'']" and entries = "[]" and xs = "[]"]
    by (simp add: encodable_lit s1 s2 s3 n sample_world_def sample_clock_def) blast
qed

text \<open>
  The claim as stated fails: with an empty site, \<open>build_entry\<close> and \<open>Entry.build\<close>
  return an entry all the same.
\<close>

theorem create_accepts_empty_site:
  "map_sum id (\<lambda>d. map_of d (lit ''site''))
       (build_entry (sample_clock 0) [] (lit ''ana'') (lit ''a'') (lit ''1234''))
     = Inr (Some (JStr []))
   \<and> map_sum id site (Entry_build (sample_clock 0) [] (lit ''ana'') (lit ''a'') (lit ''1234''))
     = Inr []"
proof -
  from build_entry_total [OF encodable_lit encodable_lit, of "''a''" "''1234''"
      "sample_clock 0" "[]" "lit ''ana''"]
    Entry_build_total [OF encodable_lit encodable_lit, of "''a''" "''1234''"
      "sample_clock 0" "[]" "lit ''ana''"]
  show ?thesis by (auto simp: strip_Nil)
qed

section \<open>Removing an entry\<close>

lemma print_choices_frame:
  "print_choices idx es w = (r, w') \<Longrightarrow>
     data_file w' = data_file w \<and> text_file w' = text_file w \<and> stdin w' = stdin w"
proof (induction es arbitrary: idx w)
  case Nil
  then show ?case by auto
next
  case (Cons e es)
  show ?case
  proof (cases "getitem e (lit ''site'')")
    case (Inl x)
    then show ?thesis using Cons.prems by auto
  next
    case s: (Inr s)
    show ?thesis
    proof (cases "getitem e (lit ''username'')")
      case (Inl x)
      then show ?thesis using Cons.prems s by auto
    next
      case (Inr u)
      then have "print_choices (Suc idx) es (w\<lparr>stdout := stdout w @ [Choice idx s u]\<rparr>) = (r, w')"
        using Cons.prems s by simp
      from Cons.IH [OF this] show ?thesis by simp
    qed
  qed
qed

lemma select_entry_invalid:
  assumes "stdin w = answer # rest" and "\<not> valid_selection to_int (length entries) answer"
    and "select_entry to_int entries w = (r, w')"
  shows "r \<noteq> Inr (Some i) \<and> data_file w' = data_file w \<and> text_file w' = text_file w"
proof (cases "entries = []")
  case True
  then show ?thesis using assms by (auto simp: select_entry_def io_defs split: list.splits)
next
  case False
  obtain r1 w1 where p: "print_choices 1 entries w = (r1, w1)" by (cases "print_choices 1 entries w")
  note f = print_choices_frame [OF p]
  show ?thesis
  proof (cases r1)
    case (Inl e)
    then show ?thesis using assms(3) False p f by (auto simp: select_entry_def io_defs)
  next
    case (Inr u)
    have "stdin w1 = answer # rest" using f assms(1) by simp
    then show ?thesis using assms(2,3) False p f Inr
      by (auto simp: select_entry_def io_defs valid_selection_def One_nat_def
          split: option.splits if_splits list.splits)
  qed
qed

lemma delete_entry_invalid:
  assumes "stdin w = answer # rest" and "data_file w = Some (Json (JList xs))"
    and "\<not> valid_selection to_int (length (dicts xs)) answer"
  shows "data_file (snd (delete_entry to_int w)) = data_file w
     \<and> text_file (snd (delete_entry to_int w)) = text_file w"
proof -
  have l: "load_entries w = (Inr (dicts xs), w)" using assms(2) by (simp add: load_entries_def)
  obtain r w' where s: "select_entry to_int (dicts xs) w = (r, w')"
    by (cases "select_entry to_int (dicts xs) w")
  from select_entry_invalid [OF assms(1,3) s]
  have "\<And>i. r \<noteq> Inr (Some i)" and f: "data_file w' = data_file w" "text_file w' = text_file w"
    by auto
  then have "r = Inr None \<or> (\<exists>e. r = Inl e)" by (cases r) auto
  then show ?thesis using l s f by (auto simp: delete_entry_def io_defs)
qed

lemma print_choices_listable:
  "list_all listable es \<Longrightarrow>
     \<exists>out. print_choices idx es w = (Inr (), w\<lparr>stdout := stdout w @ out\<rparr>)"
proof (induction es arbitrary: idx w)
  case Nil
  have "w = w\<lparr>stdout := stdout w @ []\<rparr>" by simp
  then show ?case by (metis print_choices.simps(1))
next
  case (Cons e es)
  then obtain s u where su: "getitem e (lit ''site'') = Inr s" "getitem e (lit ''username'') = Inr u"
    by (auto simp: listable_def getitem_def)
  from Cons have "list_all listable es" by simp
  from Cons.IH [OF this, of "Suc idx" "w\<lparr>stdout := stdout w @ [Choice idx s u]\<rparr>"]
  obtain out where "print_choices (Suc idx) es (w\<lparr>stdout := stdout w @ [Choice idx s u]\<rparr>)
      = (Inr (), w\<lparr>stdout := stdout w @ [Choice idx s u] @ out\<rparr>)"
    by auto
  then show ?case using su by auto
qed

lemma select_entry_out_of_range:
  assumes "stdin w = answer # l # rest" and "entries \<noteq> []" and "list_all listable entries"
    and "to_int answer = Some k" and "k \<noteq> 0" and "k < 1 \<or> int (length entries) < k"
  shows "\<exists>out. select_entry to_int entries w
           = (Inr None, w\<lparr>stdin := rest, stdout := stdout w @ out @ [OutOfRange]\<rparr>)"
proof -
  from print_choices_listable [OF assms(3), of 1 w] obtain out
    where "print_choices 1 entries w = (Inr (), w\<lparr>stdout := stdout w @ out\<rparr>)" by blast
  then have "select_entry to_int entries w
           = (Inr None, w\<lparr>stdin := rest, stdout := stdout w @ out @ [OutOfRange]\<rparr>)"
    using assms by (auto simp: select_entry_def io_defs One_nat_def)
  then show ?thesis by blast
qed

lemma select_entry_not_a_number:
  assumes "stdin w = answer # l # rest" and "entries \<noteq> []" and "list_all listable entries"
    and "to_int answer = None"
  shows "\<exists>out. select_entry to_int entries w
           = (Inr None, w\<lparr>stdin := rest, stdout := stdout w @ out @ [InvalidInput]\<rparr>)"
proof -
  from print_choices_listable [OF assms(3), of 1 w] obtain out
    where "print_choices 1 entries w = (Inr (), w\<lparr>stdout := stdout w @ out\<rparr>)" by blast
  then have "select_entry to_int entries w
           = (Inr None, w\<lparr>stdin := rest, stdout := stdout w @ out @ [InvalidInput]\<rparr>)"
    using assms by (auto simp: select_entry_def io_defs One_nat_def)
  then show ?thesis by blast
qed

lemma delete_entry_out_of_range:
  assumes "stdin w = answer # l # rest" and "data_file w = Some (Json (JList xs))"
    and "dicts xs \<noteq> []" and "list_all listable (dicts xs)"
    and "to_int answer = Some k" and "k \<noteq> 0" and "k < 1 \<or> int (length (dicts xs)) < k"
  shows "\<exists>out. delete_entry to_int w
           = (Inr (), w\<lparr>stdin := rest, stdout := stdout w @ out @ [OutOfRange]\<rparr>)"
proof -
  have l: "load_entries w = (Inr (dicts xs), w)" using assms(2) by (simp add: load_entries_def)
  from select_entry_out_of_range [of w answer l rest "dicts xs" to_int k] assms obtain out
    where "select_entry to_int (dicts xs) w
           = (Inr None, w\<lparr>stdin := rest, stdout := stdout w @ out @ [OutOfRange]\<rparr>)" by blast
  then have "delete_entry to_int w
           = (Inr (), w\<lparr>stdin := rest, stdout := stdout w @ out @ [OutOfRange]\<rparr>)"
    using l by (simp add: delete_entry_def io_defs)
  then show ?thesis by blast
qed

lemma choose_loop_refused:
  "list_all (refused isdigit to_int n) bad \<Longrightarrow>
     choose_loop isdigit to_int n (bad @ [] # rest) out
       = (Inr None, rest, out @ replicate (length bad) InvalidSelection)"
proof (induction bad arbitrary: out)
  case Nil
  then show ?case by simp
next
  case (Cons c bad)
  then have c: "refused isdigit to_int n c" and bad: "list_all (refused isdigit to_int n) bad"
    by simp_all
  have "choose_loop isdigit to_int n ((c # bad) @ [] # rest) out
      = choose_loop isdigit to_int n (bad @ [] # rest) (out @ [InvalidSelection])"
    using c by (auto simp: refused_def split: option.splits if_splits)
  then show ?case using Cons.IH [OF bad, of "out @ [InvalidSelection]"]
    by (simp add: replicate_append_same)
qed

lemma visual_delete_entry_refused:
  assumes "stdin w = bad @ [] # rest" and "entries \<noteq> []"
    and "list_all (refused isdigit to_int (length entries)) bad"
  shows "visual_delete_entry isdigit to_int entries w
     = (Inr (), w\<lparr>stdin := rest,
          stdout := stdout w @ map (\<lambda>(idx, entry). ChoiceOf idx (site entry) (username entry))
                               (enumerate 1 entries)
                      @ replicate (length bad) InvalidSelection\<rparr>)"
  using assms choose_loop_refused [OF assms(3)]
  by (simp add: visual_delete_entry_def choose_entry_def io_defs)

text \<open>
  Claim C8, as amended. \<open>delete_entry\<close> with an answer that is not a number of the
  list performs no mutation: the store file and the text files are unchanged. In
  \<open>src/codline.py\<close> every such number but 0 is reported as out of range, and 0 cancels
  without a report. In \<open>src/Visual/codline.py\<close> every such answer is reported and the
  question is asked again; an empty answer then ends the call with the store unchanged.
\<close>

theorem remove_out_of_range:
  "(stdin w = answer # rest \<and> data_file w = Some (Json (JList xs))
      \<and> \<not> valid_selection to_int (length (dicts xs)) answer \<longrightarrow>
      data_file (snd (delete_entry to_int w)) = data_file w
      \<and> text_file (snd (delete_entry to_int w)) = text_file w)
   \<and> (stdin w = answer # l # rest \<and> data_file w = Some (Json (JList xs))
      \<and> dicts xs \<noteq> [] \<and> list_all listable (dicts xs)
      \<and> to_int answer = Some k \<and> k \<noteq> 0 \<and> (k < 1 \<or> int (length (dicts xs)) < k) \<longrightarrow>
      (\<exists>out. delete_entry to_int w
               = (Inr (), w\<lparr>stdin := rest, stdout := stdout w @ out @ [OutOfRange]\<rparr>)))
   \<and> (stdin w = bad @ [] # rest \<and> entries \<noteq> []
      \<and> list_all (refused isdigit to_int (length entries)) bad \<longrightarrow>
      visual_delete_entry isdigit to_int entries w
        = (Inr (), w\<lparr>stdin := rest,
             stdout := stdout w @ map (\<lambda>(idx, entry). ChoiceOf idx (site entry) (username entry))
                                  (enumerate 1 entries)
                         @ replicate (length bad) InvalidSelection\<rparr>))"
proof (intro conjI impI)
  assume h: "stdin w = answer # rest \<and> data_file w = Some (Json (JList xs))
      \<and> \<not> valid_selection to_int (length (dicts xs)) answer"
  then show "data_file (snd (delete_entry to_int w)) = data_file w"
    using delete_entry_invalid [of w answer rest xs to_int] by blast
  from h show "text_file (snd (delete_entry to_int w)) = text_file w"
    using delete_entry_invalid [of w answer rest xs to_int] by blast
next
  assume "stdin w = answer # l # rest \<and> data_file w = Some (Json (JList xs))
      \<and> dicts xs \<noteq> [] \<and> list_all listable (dicts xs)
      \<and> to_int answer = Some k \<and> k \<noteq> 0 \<and> (k < 1 \<or> int (length (dicts xs)) < k)"
  then show "\<exists>out. delete_entry to_int w
               = (Inr (), w\<lparr>stdin := rest, stdout := stdout w @ out @ [OutOfRange]\<rparr>)"
    using delete_entry_out_of_range [of w answer l rest xs to_int k] by blast
next
  assume "stdin w = bad @ [] # rest \<and> entries \<noteq> []
      \<and> list_all (refused isdigit to_int (length entries)) bad"
  then show "visual_delete_entry isdigit to_int entries w
        = (Inr (), w\<lparr>stdin := rest,
             stdout := stdout w @ map (\<lambda>(idx, entry). ChoiceOf idx (site entry) (username entry))
                                  (enumerate 1 entries)
                         @ replicate (length bad) InvalidSelection\<rparr>)"
    using visual_delete_entry_refused [of w bad rest entries isdigit to_int] by blast
qed

lemma ascii_int_7: "ascii_int (lit ''7'') = Some 7"
  by (simp add: ascii_int_def strip_def lit_def isspace_def)

lemma ascii_int_0: "ascii_int (lit ''0'') = Some 0"
  by (simp add: ascii_int_def strip_def lit_def isspace_def)

lemma sample_entry_listable: "listable sample_entry"
  by (simp add: listable_def sample_entry_def to_dict_def lit_eq_iff)

theorem remove_out_of_range_witness:
  "data_file (snd (delete_entry ascii_int
       (sample_world\<lparr>data_file := Some (Json (JList [JDict sample_entry])),
          stdin := [lit ''7'', [], lit ''next'']\<rparr>)))
     = Some (Json (JList [JDict sample_entry]))
   \<and> (\<exists>out. delete_entry ascii_int
         (sample_world\<lparr>data_file := Some (Json (JList [JDict sample_entry])),
            stdin := [lit ''7'', [], lit ''next'']\<rparr>)
       = (Inr (), sample_world\<lparr>data_file := Some (Json (JList [JDict sample_entry])),
            stdin := [lit ''next''], stdout := out @ [OutOfRange]\<rparr>))
   \<and> visual_delete_entry ascii_isdigit ascii_int [sample_Entry]
         (sample_world\<lparr>stdin := [lit ''7'', lit ''x'', [], lit ''next'']\<rparr>)
       = (Inr (), sample_world\<lparr>stdin := [lit ''next''],
            stdout := [ChoiceOf 1 (lit ''example.org'') (lit ''ana''),
                       InvalidSelection, InvalidSelection]\<rparr>)"
proof -
  let ?w = "sample_world\<lparr>data_file := Some (Json (JList [JDict sample_entry])),
          stdin := [lit ''7'', [], lit ''next'']\<rparr>"
  let ?v = "sample_world\<lparr>stdin := [lit ''7'', lit ''x'', [], lit ''next'']\<rparr>"
  have nv: "\<not> valid_selection ascii_int (length (dicts [JDict sample_entry])) (lit ''7'')"
    by (simp add: valid_selection_def ascii_int_7)
  have d: "ascii_isdigit (lit ''7'')" "\<not> ascii_isdigit (lit ''x'')"
    "lit ''7'' \<noteq> []" "lit ''x'' \<noteq> []"
    by (simp_all add: ascii_isdigit_def lit_def)
  have r: "list_all (refused ascii_isdigit ascii_int (length [sample_Entry])) [lit ''7'', lit ''x'']"
    by (simp add: refused_def d ascii_int_7)
  have a: "data_file (snd (delete_entry ascii_int ?w)) = data_file ?w"
    using remove_out_of_range [where w = ?w and answer = "lit ''7''"
        and rest = "[[], lit ''next'']" and xs = "[JDict sample_entry]" and to_int = ascii_int] nv
    by simp
  have b: "\<exists>out. delete_entry ascii_int ?w
       = (Inr (), ?w\<lparr>stdin := [lit ''next''], stdout := stdout ?w @ out @ [OutOfRange]\<rparr>)"
    using remove_out_of_range [where w = ?w and answer = "lit ''7''" and l = "[]"
        and rest = "[lit ''next'']" and xs = "[JDict sample_entry]" and to_int = ascii_int
        and k = 7]
    by (simp add: ascii_int_7 sample_entry_listable)
  have c: "visual_delete_entry ascii_isdigit ascii_int [sample_Entry] ?v
       = (Inr (), ?v\<lparr>stdin := [lit ''next''],
            stdout := stdout ?v @ map (\<lambda>(idx, entry). ChoiceOf idx (site entry) (username entry))
                                    (enumerate 1 [sample_Entry])
                        @ replicate (length [lit ''7'', lit ''x'']) InvalidSelection\<rparr>)"
    using remove_out_of_range [where w = ?v and rest = "[lit ''next'']"
        and bad = "[lit ''7'', lit ''x'']" and entries = "[sample_Entry]"
        and isdigit = ascii_isdigit and to_int = ascii_int] r
    by simp
  show ?thesis using a b c
    by (simp add: sample_world_def sample_Entry_def numeral_2_eq_2)
qed

text \<open>
  The claim as stated fails at the index below the first entry: the answer \<open>0\<close> to
  \<open>select_entry\<close> returns without any report.
\<close>

theorem remove_zero_not_reported:
  "delete_entry ascii_int
     (sample_world\<lparr>data_file := Some (Json (JList [JDict sample_entry])), stdin := [lit ''0'']\<rparr>)
   = (Inr (), sample_world\<lparr>data_file := Some (Json (JList [JDict sample_entry])), stdin := [],
        stdout := [Choice 1 (JStr (lit ''example.org'')) (JStr (lit ''ana''))]\<rparr>)"
  by (simp add: delete_entry_def select_entry_def io_defs load_entries_def ascii_int_0
      sample_world_def sample_entry_def sample_Entry_def to_dict_def getitem_def lit_eq_iff)

section \<open>Listing the entries\<close>

lemma encrypt_empty: "encodable s \<Longrightarrow> encrypt_password [] s = Inr []"
  using encodable_encode [of s]
  by (auto simp: encrypt_password_def derive_xor_key_def xor_with_key_def urlsafe_b64encode_def
      decode_utf8_def)

lemma decrypt_empty: "encodable s \<Longrightarrow> decrypt_password [] s = Inr []"
  using encodable_encode [of s]
  by (auto simp: decrypt_password_def derive_xor_key_def xor_with_key_def urlsafe_b64decode_def
      decode_utf8_def a2b_end)

lemma decrypt_truncated: "encodable s \<Longrightarrow> decrypt_password (lit ''A'') s = Inl binascii_Error"
  using encodable_encode [of s]
  by (auto simp: decrypt_password_def derive_xor_key_def lit_def utf8_char_def
      urlsafe_b64decode_def urlsafe_decode_translation_def a2b_base64.simps table_a2b_def)

lemma list_rows_total:
  "list_all displayable entries \<Longrightarrow>
     \<exists>rows. list_rows iso_strftime a idx entries = Inr rows
       \<and> map (\<lambda>(i, s, u, c, d). c) rows = map (password_cell a) entries"
proof (induction entries arbitrary: idx)
  case Nil
  then show ?case by simp
next
  case (Cons e es)
  then obtain s u t where k: "getitem e (lit ''site'') = Inr s"
    "getitem e (lit ''username'') = Inr u" "getitem e (lit ''updated_at'') = Inr (JStr t)"
    by (auto simp: displayable_def getitem_def split: option.splits json.splits)
  obtain d where d: "format_datetime iso_strftime (JStr t) = Inr d"
    by (cases "iso_strftime (lit ''%d/%m/%Y %H:%M'') t") (auto simp: format_datetime_def)
  from Cons have "list_all displayable es" by simp
  from Cons.IH [OF this, of "Suc idx"] obtain rows
    where "list_rows iso_strftime a (Suc idx) es = Inr rows"
      "map (\<lambda>(i, s, u, c, d). c) rows = map (password_cell a) es"
    by blast
  then show ?case using k d by simp
qed


text \<open>
  Claim C10. For the empty plaintext and every pair of secrets that are UTF-8 text,
  encryption under one gives the empty ciphertext and decryption of it under the other
  succeeds with the empty plaintext: an entry whose stored password is empty is shown
  without a decryption error under any secret, by \<open>list_entries\<close> and by
  \<open>view_entries\<close>.
\<close>

theorem empty_password_any_secret:
  assumes "encodable s" and "encodable s'"
  shows "encrypt_password [] s = Inr [] \<and> decrypt_password [] s' = Inr []
     \<and> (map_of d (lit ''password_encrypted'') = Some (JStr []) \<longrightarrow> password_cell s' d = Plain [])
     \<and> (password_encrypted e = [] \<and> iso_strftime (lit ''%Y-%m-%d %H:%M'') (updated_at e) = Some t
          \<longrightarrow> view_rows iso_strftime s' [e] = Inr [(site e, username e, [], t)])"
  using encrypt_empty [OF assms(1)] decrypt_empty [OF assms(2)]
  by (simp add: password_cell_def getitem_def)

theorem empty_password_any_secret_witness:
  "encrypt_password [] (lit ''1234'') = Inr [] \<and> decrypt_password [] (lit ''4321'') = Inr []
   \<and> password_cell (lit ''4321'') [(lit ''password_encrypted'', JStr [])] = Plain []
   \<and> view_rows (\<lambda>f t. Some t) (lit ''4321'') [sample_Entry\<lparr>password_encrypted := []\<rparr>]
       = Inr [(lit ''example.org'', lit ''ana'', [], sample_clock 0)]"
  using empty_password_any_secret [of "lit ''1234''" "lit ''4321''"
      "[(lit ''password_encrypted'', JStr [])]" "sample_Entry\<lparr>password_encrypted := []\<rparr>"
      "\<lambda>f t. Some t" "sample_clock 0"]
  by (simp add: encodable_lit sample_Entry_def)

text \<open>
  Claim C4, on \<open>src/Visual/codline.py\<close>: the rows of \<open>view_entries\<close> are built
  without a handler, so a ciphertext that does not decode ends the listing with the
  exception, whatever entries follow. Here the first entry holds the ciphertext \<open>A\<close>,
  which is not base64, and the second is a well-formed entry.
\<close>

theorem view_rows_aborts:
  "view_rows iso_strftime (lit ''1234'') [sample_Entry\<lparr>password_encrypted := lit ''A''\<rparr>, sample_Entry]
     = Inl binascii_Error"
  by (simp add: decrypt_truncated encodable_lit)

text \<open>
  In \<open>src/codline.py\<close> the rows of \<open>list_entries\<close> are built for every entry that has
  a site, a username and a text \<open>updated_at\<close>: decryption never ends the loop, and the
  password cell of a row is the decryption error exactly where \<open>password_cell\<close> says.
\<close>

theorem list_rows_never_aborts:
  assumes "list_all displayable entries"
  shows "\<exists>rows. list_rows iso_strftime admin_password 1 entries = Inr rows
     \<and> map (\<lambda>(i, s, u, c, d). c) rows = map (password_cell admin_password) entries"
  using assms by (rule list_rows_total)

theorem list_rows_never_aborts_witness:
  "\<exists>rows. list_rows (\<lambda>f t. None) (lit ''1234'') 1
       [setitem (lit ''password_encrypted'') (JStr (lit ''A'')) sample_entry, sample_entry] = Inr rows
     \<and> map (\<lambda>(i, s, u, c, d). c) rows
        = [DecryptError, password_cell (lit ''1234'') sample_entry]"
proof -
  have "list_all displayable
      [setitem (lit ''password_encrypted'') (JStr (lit ''A'')) sample_entry, sample_entry]"
    by (simp add: displayable_def sample_entry_def to_dict_def map_of_setitem lit_eq_iff)
  from list_rows_never_aborts [OF this, of "\<lambda>f t. None" "lit ''1234''"]
  show ?thesis
    by (simp add: password_cell_def getitem_def map_of_setitem decrypt_truncated encodable_lit)
qed

section \<open>The length of a ciphertext\<close>

text \<open>
  Claim C9, as amended. For every plaintext \<open>p\<close> and every pair of secrets (UTF-8
  text), the two ciphertexts are base64 texts of the same length \<open>4 * \<lceil>n / 3\<rceil>\<close>,
  where \<open>n\<close> is the number of octets of \<open>p\<close> in UTF-8, and with the same number of
  \<open>=\<close> pads: neither carries information about the secret. The length alone gives
  \<open>n\<close> up to the block of three octets; the length and the pads together give \<open>n\<close>
  exactly.
\<close>

theorem ciphertext_length:
  assumes "encode_utf8 p = Inr data" and "encodable s1" and "encodable s2"
  shows "\<exists>c1 c2. encrypt_password p s1 = Inr c1 \<and> encrypt_password p s2 = Inr c2
     \<and> length c1 = 4 * ((length data + 2) div 3) \<and> length c2 = length c1
     \<and> count_list c1 61 = (3 - length data mod 3) mod 3 \<and> count_list c2 61 = count_list c1 61
     \<and> 3 * (length c1 div 4) - count_list c1 61 = length data"
proof -
  from assms(2,3) obtain sb1 sb2 where "encode_utf8 s1 = Inr sb1" "encode_utf8 s2 = Inr sb2"
    using encodable_encode by blast
  from encrypt_password_eq [OF this(1) assms(1)] encrypt_password_eq [OF this(2) assms(1)]
  obtain e1 e2 where e: "length e1 = length data" "encrypt_password p s1 = Inr (b64_text e1)"
    "length e2 = length data" "encrypt_password p s2 = Inr (b64_text e2)"
    by blast
  have "3 * (length (b64_text e1) div 4) - count_list (b64_text e1) 61 = length data"
    using length_from_b64 [of "length data"] by (simp add: b64_text_length b64_text_pads e)
  then show ?thesis using e by (simp add: b64_text_length b64_text_pads)
qed

theorem ciphertext_length_witness:
  "\<exists>c1 c2. encrypt_password (lit ''ab'') (lit ''1234'') = Inr c1
     \<and> encrypt_password (lit ''ab'') (lit ''4321'') = Inr c2
     \<and> length c1 = 4 \<and> length c2 = 4 \<and> count_list c1 61 = 1 \<and> count_list c2 61 = 1"
proof -
  have ab: "encode_utf8 (lit ''ab'') = Inr [0x61, 0x62]" by (simp add: lit_def utf8_char_def)
  from ciphertext_length [OF ab encodable_lit encodable_lit, of "''1234''" "''4321''"]
  show ?thesis by auto
qed

text \<open>
  The claim as stated fails: plaintexts of one and of two octets have ciphertexts of
  the same length, so the length does not reveal the number of octets.
\<close>

theorem ciphertext_length_not_injective:
  "map_sum id length (encode_utf8 (lit ''a'')) = Inr 1
   \<and> map_sum id length (encode_utf8 (lit ''ab'')) = Inr 2
   \<and> map_sum id length (encrypt_password (lit ''a'') (lit ''1234'')) = Inr 4
   \<and> map_sum id length (encrypt_password (lit ''ab'') (lit ''1234'')) = Inr 4"
proof -
  have a: "encode_utf8 (lit ''a'') = Inr [0x61]" by (simp add: lit_def utf8_char_def)
  have ab: "encode_utf8 (lit ''ab'') = Inr [0x61, 0x62]" by (simp add: lit_def utf8_char_def)
  obtain sb where sb: "encode_utf8 (lit ''1234'') = Inr sb"
    using encodable_encode [OF encodable_lit] by blast
  from encrypt_password_eq [OF sb a] encrypt_password_eq [OF sb ab]
  show ?thesis by (auto simp: a ab b64_text_length)
qed

end
